theory Spec2Isabelle
  imports Complex_Main "HOL-Library.AList"
begin

section \<open>JavaScript values and objects\<close>

text \<open>
  The orchestrator of \<^verbatim>\<open>multi-agent-system/lib/AgentOrchestrator.js\<close> passes plain
  JavaScript objects around (tasks, agent results) and tests some of their properties for
  truthiness. A value is one of the JSON-like shapes below; an object is the list of its
  properties in insertion order. Numbers are integers here (no fraction, no NaN).
\<close>

datatype jsval =
    JUndefined
  | JNull
  | JBool bool
  | JNum int
  | JStr string
  | JArr "jsval list"
  | JObj "(string \<times> jsval) list"

type_synonym obj = "(string \<times> jsval) list"

text \<open>What \<^verbatim>\<open>if (v)\<close> and \<^verbatim>\<open>!v\<close> test: every object and array is truthy.\<close>

fun truthy :: "jsval \<Rightarrow> bool" where
  "truthy JUndefined = False"
| "truthy JNull = False"
| "truthy (JBool b) = b"
| "truthy (JNum n) = (n \<noteq> 0)"
| "truthy (JStr s) = (s \<noteq> [])"
| "truthy (JArr xs) = True"
| "truthy (JObj ps) = True"

text \<open>The two values no property can be read from: \<^verbatim>\<open>v.k\<close> raises a
  \<^verbatim>\<open>TypeError\<close> for them.\<close>

definition nullish :: "jsval \<Rightarrow> bool" where
  "nullish v = (v = JUndefined \<or> v = JNull)"

text \<open>Property read \<^verbatim>\<open>o.k\<close>: \<^verbatim>\<open>undefined\<close> when the object has no such property.\<close>

definition js_get :: "obj \<Rightarrow> string \<Rightarrow> jsval" where
  "js_get ob k = (case map_of ob k of None \<Rightarrow> JUndefined | Some v \<Rightarrow> v)"

text \<open>
  The object literal \<^verbatim>\<open>{ ...o, k: v }\<close>: a copy of \<open>o\<close> in which \<open>k\<close> holds \<open>v\<close>
  (in place when \<open>o\<close> has the property, appended otherwise).
\<close>

definition js_set :: "string \<Rightarrow> jsval \<Rightarrow> obj \<Rightarrow> obj" where
  "js_set k v ob = AList.update k v ob"

text \<open>
  The text a template literal \<^verbatim>\<open>`${v}`\<close> inserts: a string as it is, a number in
  decimal, an array as its elements' texts joined by commas (nothing for \<^verbatim>\<open>null\<close> and
  \<^verbatim>\<open>undefined\<close> elements), any other object as \<^verbatim>\<open>[object Object]\<close>.
\<close>

fun digits :: "nat \<Rightarrow> string" where
  "digits n =
     (if n < 10 then [''0123456789'' ! n]
      else digits (n div 10) @ [''0123456789'' ! (n mod 10)])"

declare digits.simps [simp del]

definition decimal :: "int \<Rightarrow> string" where
  "decimal i = (if i < 0 then CHR ''-'' # digits (nat (- i)) else digits (nat i))"

fun join :: "string \<Rightarrow> string list \<Rightarrow> string" where
  "join sep [] = []"
| "join sep [x] = x"
| "join sep (x # y # ys) = x @ sep @ join sep (y # ys)"

fun template :: "jsval \<Rightarrow> string" where
  "template (JStr s) = s"
| "template JUndefined = ''undefined''"
| "template JNull = ''null''"
| "template (JBool b) = (if b then ''true'' else ''false'')"
| "template (JNum n) = decimal n"
| "template (JArr xs) =
     join '',''
       (map (\<lambda>x. case x of JUndefined \<Rightarrow> [] | JNull \<Rightarrow> [] | _ \<Rightarrow> template x) xs)"
| "template (JObj ps) = ''[object Object]''"

section \<open>BaseAgent\<close>

text \<open>
  \<^verbatim>\<open>lib/BaseAgent.js\<close>. An agent instance is a record of the fields the constructor
  sets; \<open>own\<close> holds whatever a subclass adds (a knowledge base, a script of answers in
  a test double).
\<close>

record metrics =
  tasksProcessed :: nat
  errors :: nat
  averageProcessingTime :: real

record history_entry =
  h_timestamp :: string
  h_task :: obj
  h_result :: jsval
  h_error :: jsval
  h_state :: string

record 'x agent =
  name :: string
  role :: string
  state :: string
  metrics :: metrics
  conversationHistory :: "history_entry list"
  own :: 'x

text \<open>The constructor of a subclass: \<^verbatim>\<open>super(name, role, logger)\<close> and its own fields.\<close>

definition new_agent :: "string \<Rightarrow> string \<Rightarrow> 'x \<Rightarrow> 'x agent" where
  "new_agent n r x =
     \<lparr> name = n, role = r, state = ''idle'',
       metrics = \<lparr> tasksProcessed = 0, errors = 0, averageProcessingTime = 0 \<rparr>,
       conversationHistory = [], own = x \<rparr>"

definition setState :: "string \<Rightarrow> 'x agent \<Rightarrow> 'x agent" where
  "setState newState a = a\<lparr> state := newState \<rparr>"

text \<open>\<^verbatim>\<open>recordTask(task, result, error = null)\<close>: push, then drop the oldest entry
  when more than 100 are kept. \<open>now\<close> is the clock's \<^verbatim>\<open>toISOString()\<close>.\<close>

definition recordTask :: "string \<Rightarrow> obj \<Rightarrow> jsval \<Rightarrow> jsval \<Rightarrow> 'x agent \<Rightarrow> 'x agent" where
  "recordTask now task result err a =
     (let h = conversationHistory a @
                [\<lparr> h_timestamp = now, h_task = task, h_result = result, h_error = err,
                   h_state = state a \<rparr>]
      in a\<lparr> conversationHistory := (if length h > 100 then tl h else h) \<rparr>)"

text \<open>\<^verbatim>\<open>updateMetrics(processingTime, error = false)\<close>.\<close>

definition updateMetrics :: "real \<Rightarrow> bool \<Rightarrow> 'x agent \<Rightarrow> 'x agent" where
  "updateMetrics processingTime err a =
     (let m = metrics a;
          n = tasksProcessed m + 1;
          e = (if err then errors m + 1 else errors m);
          total = averageProcessingTime m * real (n - 1)
      in a\<lparr> metrics := \<lparr> tasksProcessed = n, errors = e,
                            averageProcessingTime = (total + processingTime) / real n \<rparr> \<rparr>)"

text \<open>\<^verbatim>\<open>validateTask(task)\<close>: returns normally or raises an \<^verbatim>\<open>Error\<close> with the
  message given. A task is an object by its type here, so the first test of the source
  (\<^verbatim>\<open>!task || typeof task !== 'object'\<close>) has no case.\<close>

definition validateTask :: "obj \<Rightarrow> string option" where
  "validateTask task =
     (if \<not> truthy (js_get task ''type'') then Some ''Invalid task: missing type field''
      else if \<not> truthy (js_get task ''data'') then Some ''Invalid task: missing data field''
      else None)"

text \<open>\<^verbatim>\<open>handleError(error, task)\<close>: counts the error, enters state \<^verbatim>\<open>error\<close> and
  returns a failed result.\<close>

definition handleError :: "string \<Rightarrow> string \<Rightarrow> obj \<Rightarrow> 'x agent \<Rightarrow> obj \<times> 'x agent" where
  "handleError now message task a =
     (let a' = setState ''error'' (updateMetrics 0 True a)
      in ([(''success'', JBool False), (''error'', JStr message), (''agent'', JStr (name a')),
           (''timestamp'', JStr now)], a'))"

subsection \<open>What a call of \<^verbatim>\<open>agent.process(task)\<close> does\<close>

text \<open>
  Every call raises or returns a result object. \<open>Raised m\<close> is
  \<^verbatim>\<open>throw new Error(m)\<close>; \<open>RaisedValue v\<close> is a throw (or a rejection) with any value
  that is not an \<^verbatim>\<open>Error\<close>, \<^verbatim>\<open>undefined\<close> and \<^verbatim>\<open>null\<close> among them.
  \<open>Returned r d\<close> also carries the \<open>d\<close> milliseconds that the caller's two readings of
  \<^verbatim>\<open>Date.now()\<close> around the call differ by. A call may change the agent itself (and
  nothing else); the agent's behaviour is a function of its current fields and the task.
\<close>

datatype process_outcome = Raised string | RaisedValue jsval | Returned obj nat

type_synonym 'x process = "'x agent \<Rightarrow> obj \<Rightarrow> process_outcome \<times> 'x agent"

text \<open>
  The \<^verbatim>\<open>process\<close> of the repository's agents (\<^verbatim>\<open>ResearchAgent.process\<close> and its
  siblings share this body): validate outside the \<^verbatim>\<open>try\<close>, enter the busy state,
  dispatch on \<^verbatim>\<open>task.type\<close>, and on success update the metrics, record the task and
  return; anything raised inside the \<^verbatim>\<open>try\<close> goes to \<open>handleError\<close>. The handlers
  themselves (the \<^verbatim>\<open>switch\<close> table) are a parameter: a handler reads \<^verbatim>\<open>task.data\<close>,
  may change the subclass's own fields and returns its result or raises. \<open>clock\<close> holds
  the readings of the clock during the call: the milliseconds \<open>duration\<close> the agent
  measures, the time stamp \<open>stamped\<close> taken by \<open>recordTask\<close>, the time stamp \<open>now\<close>
  of the returned result, and the milliseconds \<open>elapsed\<close> the caller measures.
\<close>

record clock =
  duration :: nat
  stamped :: string
  now :: string
  elapsed :: nat

type_synonym 'x handler = "'x \<Rightarrow> jsval \<Rightarrow> (string + jsval) \<times> 'x"

definition process ::
  "string \<Rightarrow> (jsval \<Rightarrow> 'x handler option) \<Rightarrow> clock \<Rightarrow> 'x process" where
  "process busy handlers clk a task =
     (case validateTask task of
        Some message \<Rightarrow> (Raised message, a)
      | None \<Rightarrow>
          (let a1 = setState busy a in
           case handlers (js_get task ''type'') of
             None \<Rightarrow>
               (case handleError (now clk)
                       (''Unknown task type: '' @ template (js_get task ''type'')) task a1 of
                  (r, a2) \<Rightarrow> (Returned r (elapsed clk), a2))
           | Some h \<Rightarrow>
               (case h (own a1) (js_get task ''data'') of
                  (Inl message, x) \<Rightarrow>
                    (case handleError (now clk) message task (a1\<lparr> own := x \<rparr>) of
                       (r, a2) \<Rightarrow> (Returned r (elapsed clk), a2))
                | (Inr result, x) \<Rightarrow>
                    (let a2 = updateMetrics (real (duration clk)) False (a1\<lparr> own := x \<rparr>);
                         a3 = recordTask (stamped clk) task result JNull a2;
                         a4 = setState ''idle'' a3
                     in (Returned [(''success'', JBool True), (''agent'', JStr (name a4)),
                                   (''data'', result), (''timestamp'', JStr (now clk))]
                                  (elapsed clk), a4)))))"

section \<open>AgentOrchestrator\<close>

text \<open>
  \<^verbatim>\<open>lib/AgentOrchestrator.js\<close>. The two \<^verbatim>\<open>Map\<close>s are association lists in insertion
  order (\<open>map_of\<close> is \<^verbatim>\<open>get\<close>, \<open>AList.update\<close> is \<^verbatim>\<open>set\<close>, \<open>length\<close> is
  \<^verbatim>\<open>size\<close>); the registry holds each agent under the name it was registered with, and a
  call that changes an agent stores the changed agent under that key, as the mutation of
  the shared instance does. Logging does not touch the orchestrator and is left out, as are
  the orchestrator's own clock readings (\<^verbatim>\<open>duration\<close>, \<^verbatim>\<open>timestamp\<close> of a report).
  One execution is followed from its call to its end; executions in flight at the same
  time are not interleaved with it.

  A step's \<^verbatim>\<open>retries\<close> is a natural number when the step has the property and \<open>None\<close>
  when it has not; an absent \<^verbatim>\<open>escalateOnFailure\<close> is \<open>False\<close>, an absent
  \<^verbatim>\<open>escalationHandler\<close> is \<open>None\<close>.
\<close>

record workflow_step =
  step_name :: string
  agentName :: string
  config :: jsval
  retries :: "nat option"
  escalateOnFailure :: bool

record workflow =
  wf_name :: string
  steps :: "workflow_step list"
  escalationHandler :: "string option"

record 'x orchestrator =
  agents :: "(string \<times> 'x agent) list"
  workflows :: "(string \<times> workflow) list"
  activeTasksCount :: int
  maxConcurrentTasks :: int

text \<open>The constructor.\<close>

definition new_orchestrator :: "'x orchestrator" where
  "new_orchestrator =
     \<lparr> agents = [], workflows = [], activeTasksCount = 0, maxConcurrentTasks = 10 \<rparr>"

text \<open>What a JavaScript \<^verbatim>\<open>throw\<close> carries out of the orchestrator: an \<^verbatim>\<open>Error\<close> with
  its message, or a value that is not an \<^verbatim>\<open>Error\<close>; \<^verbatim>\<open>undefined\<close> is the initial
  \<^verbatim>\<open>lastError\<close> of the retry loop.\<close>

datatype thrown = Error string | ThrownValue jsval

abbreviation ThrownUndefined :: thrown where
  "ThrownUndefined \<equiv> ThrownValue JUndefined"

text \<open>
  The three \<^verbatim>\<open>catch\<close> blocks of the orchestrator evaluate \<^verbatim>\<open>error.message\<close> for their
  log entry. For a caught \<^verbatim>\<open>undefined\<close> or \<^verbatim>\<open>null\<close> that read raises a
  \<^verbatim>\<open>TypeError\<close>, which leaves the \<^verbatim>\<open>catch\<close> block in place of what the block would
  have done. \<open>read_message e\<close> is that \<^verbatim>\<open>TypeError\<close>, or \<open>None\<close> when the read
  succeeds.
\<close>

definition message_TypeError :: "jsval \<Rightarrow> thrown" where
  "message_TypeError v =
     Error (''Cannot read properties of '' @ template v @ '' (reading 'message')'')"

definition read_message :: "thrown \<Rightarrow> thrown option" where
  "read_message e =
     (case e of
        Error m \<Rightarrow> None
      | ThrownValue v \<Rightarrow> if nullish v then Some (message_TypeError v) else None)"

text \<open>The effects visible outside the orchestrator, in the order they happen: a call of
  \<^verbatim>\<open>process\<close> on the agent of that name with that task, a backoff \<^verbatim>\<open>sleep(ms)\<close>,
  and an assignment to \<^verbatim>\<open>activeTasksCount\<close> with the value assigned (what
  \<^verbatim>\<open>getStatus\<close> and the admission test of any other call read from then on).\<close>

datatype event = Process string obj | Sleep nat | ActiveTasks int

text \<open>One entry of \<^verbatim>\<open>results\<close>: \<^verbatim>\<open>{ step, agent, result }\<close>.\<close>

record step_entry =
  entry_step :: string
  entry_agent :: string
  entry_result :: obj

text \<open>The three objects \<^verbatim>\<open>executeWorkflow\<close> can return:
  \<^verbatim>\<open>{success: true, workflow, results, ...}\<close>,
  \<^verbatim>\<open>{success: false, escalated: true, escalationResult, previousResults}\<close> and
  \<^verbatim>\<open>{success: false, escalated: true, failedStep, error, previousResults}\<close>.\<close>

datatype workflow_result =
    Completed string "step_entry list"
  | EscalationHandled obj "step_entry list"
  | EscalationDefault string obj "step_entry list"

fun wf_success :: "workflow_result \<Rightarrow> bool" where
  "wf_success (Completed w rs) = True"
| "wf_success (EscalationHandled r rs) = False"
| "wf_success (EscalationDefault s e rs) = False"

fun escalated :: "workflow_result \<Rightarrow> bool" where
  "escalated (Completed w rs) = False"
| "escalated (EscalationHandled r rs) = True"
| "escalated (EscalationDefault s e rs) = True"

text \<open>The \<^verbatim>\<open>results\<close> (or \<^verbatim>\<open>previousResults\<close>) list of a returned object.\<close>

fun recorded :: "workflow_result \<Rightarrow> step_entry list" where
  "recorded (Completed w rs) = rs"
| "recorded (EscalationHandled r rs) = rs"
| "recorded (EscalationDefault s e rs) = rs"

subsection \<open>registerAgent, registerWorkflow\<close>

definition registerAgent ::
  "'x agent \<Rightarrow> 'x orchestrator \<Rightarrow> (thrown + unit) \<times> 'x orchestrator" where
  "registerAgent a orch =
     (if map_of (agents orch) (name a) \<noteq> None
      then (Inl (Error (''Agent '' @ name a @ '' is already registered'')), orch)
      else (Inr (), orch\<lparr> agents := AList.update (name a) a (agents orch) \<rparr>))"

definition registerWorkflow :: "string \<Rightarrow> workflow \<Rightarrow> 'x orchestrator \<Rightarrow> 'x orchestrator" where
  "registerWorkflow n w orch = orch\<lparr> workflows := AList.update n w (workflows orch) \<rparr>"

subsection \<open>executeWithRetry\<close>

text \<open>
  The \<^verbatim>\<open>for\<close> loop of \<^verbatim>\<open>executeWithRetry\<close>, from the attempt it is at: a returned
  result leaves the loop at once after \<^verbatim>\<open>updateMetrics(duration, false)\<close>; a raised error
  is kept as \<^verbatim>\<open>lastError\<close>, followed by a sleep of \<open>2 ^ attempt * 100\<close> ms unless this
  was the last attempt. After the loop: \<^verbatim>\<open>updateMetrics(0, true)\<close> and
  \<^verbatim>\<open>throw lastError\<close>. When the agent raised \<^verbatim>\<open>undefined\<close> or \<^verbatim>\<open>null\<close>, the
  \<^verbatim>\<open>catch\<close> block's read of \<^verbatim>\<open>error.message\<close> raises and that \<^verbatim>\<open>TypeError\<close>
  leaves \<open>executeWithRetry\<close> at once.
\<close>

function executeWithRetry_loop ::
  "'x process \<Rightarrow> 'x agent \<Rightarrow> obj \<Rightarrow> nat \<Rightarrow> nat \<Rightarrow> thrown
     \<Rightarrow> (thrown + obj) \<times> 'x agent \<times> event list" where
  "executeWithRetry_loop proc a task maxRetries attempt lastError =
     (if attempt \<le> maxRetries then
        (case proc a task of
           (Returned result d, a') \<Rightarrow>
             (Inr result, updateMetrics (real d) False a', [Process (name a) task])
         | (Raised message, a') \<Rightarrow>
             (case executeWithRetry_loop proc a' task maxRetries (attempt + 1) (Error message) of
                (out, a'', ev) \<Rightarrow>
                  (out, a'',
                   Process (name a) task #
                   (if attempt < maxRetries then [Sleep (2 ^ attempt * 100)] else []) @ ev))
         | (RaisedValue v, a') \<Rightarrow>
             (case read_message (ThrownValue v) of
                Some typeError \<Rightarrow> (Inl typeError, a', [Process (name a) task])
              | None \<Rightarrow>
                  (case executeWithRetry_loop proc a' task maxRetries (attempt + 1)
                          (ThrownValue v) of
                     (out, a'', ev) \<Rightarrow>
                       (out, a'',
                        Process (name a) task #
                        (if attempt < maxRetries then [Sleep (2 ^ attempt * 100)] else []) @
                        ev))))
      else (Inl lastError, updateMetrics 0 True a, []))"
  by pat_completeness auto
termination
  by (relation "measure (\<lambda>(proc, a, task, maxRetries, attempt, lastError). maxRetries + 1 - attempt)")
     auto

declare executeWithRetry_loop.simps [simp del]

text \<open>\<^verbatim>\<open>executeWithRetry(agent, task, maxRetries = 3)\<close>: \<open>None\<close> is the omitted
  argument.\<close>

definition executeWithRetry ::
  "'x process \<Rightarrow> 'x agent \<Rightarrow> obj \<Rightarrow> nat option \<Rightarrow> (thrown + obj) \<times> 'x agent \<times> event list" where
  "executeWithRetry proc a task maxRetries =
     executeWithRetry_loop proc a task (case maxRetries of None \<Rightarrow> 3 | Some n \<Rightarrow> n) 1
       ThrownUndefined"

subsection \<open>handleEscalation\<close>

text \<open>A \<^verbatim>\<open>results\<close> entry as the value it is inside the escalation task.\<close>

definition entry_value :: "step_entry \<Rightarrow> jsval" where
  "entry_value e =
     JObj [(''step'', JStr (entry_step e)), (''agent'', JStr (entry_agent e)),
           (''result'', JObj (entry_result e))]"

text \<open>The task the escalation handler is called with.\<close>

definition escalation_task :: "workflow \<Rightarrow> workflow_step \<Rightarrow> obj \<Rightarrow> step_entry list \<Rightarrow> obj" where
  "escalation_task workflow failedStep err previousResults =
     [(''type'', JStr ''escalation''),
      (''data'', JObj [(''workflow'', JStr (wf_name workflow)),
                       (''failedStep'', JStr (step_name failedStep)),
                       (''error'', JObj err),
                       (''previousResults'', JArr (map entry_value previousResults))])]"

text \<open>
  \<^verbatim>\<open>handleEscalation(workflow, failedStep, error, previousResults)\<close>, where \<open>error\<close> is the
  failed step's result. The handler is called only when \<^verbatim>\<open>workflow.escalationHandler\<close> is
  truthy (a non-empty name) and registered; an error it raises is caught (and logged), and
  the default object is returned. The log entry reads \<^verbatim>\<open>escalationError.message\<close>: when
  the handler raised \<^verbatim>\<open>undefined\<close> or \<^verbatim>\<open>null\<close>, that read raises a \<^verbatim>\<open>TypeError\<close>
  inside the \<^verbatim>\<open>catch\<close> block, and \<open>handleEscalation\<close> raises it.
\<close>

definition handleEscalation ::
  "'x process \<Rightarrow> workflow \<Rightarrow> workflow_step \<Rightarrow> obj \<Rightarrow> step_entry list \<Rightarrow> 'x orchestrator
     \<Rightarrow> (thrown + workflow_result) \<times> 'x orchestrator \<times> event list" where
  "handleEscalation proc workflow failedStep err previousResults orch =
     (let dflt = EscalationDefault (step_name failedStep) err previousResults in
      case escalationHandler workflow of
        None \<Rightarrow> (Inr dflt, orch, [])
      | Some h \<Rightarrow>
          if h = [] then (Inr dflt, orch, [])
          else
            (case map_of (agents orch) h of
               None \<Rightarrow> (Inr dflt, orch, [])
             | Some handler \<Rightarrow>
                 (let t = escalation_task workflow failedStep err previousResults in
                  case proc handler t of
                    (Returned escalationResult d, handler') \<Rightarrow>
                      (Inr (EscalationHandled escalationResult previousResults),
                       orch\<lparr> agents := AList.update h handler' (agents orch) \<rparr>,
                       [Process (name handler) t])
                  | (Raised message, handler') \<Rightarrow>
                      (Inr dflt,
                       orch\<lparr> agents := AList.update h handler' (agents orch) \<rparr>,
                       [Process (name handler) t])
                  | (RaisedValue v, handler') \<Rightarrow>
                      (case read_message (ThrownValue v) of
                         Some typeError \<Rightarrow>
                           (Inl typeError,
                            orch\<lparr> agents := AList.update h handler' (agents orch) \<rparr>,
                            [Process (name handler) t])
                       | None \<Rightarrow>
                           (Inr dflt,
                            orch\<lparr> agents := AList.update h handler' (agents orch) \<rparr>,
                            [Process (name handler) t])))))"

subsection \<open>executeWorkflow\<close>

text \<open>The task of a step: \<^verbatim>\<open>{ ...currentTask, stepName: step.name, stepConfig: step.config }\<close>.\<close>

definition step_task :: "obj \<Rightarrow> workflow_step \<Rightarrow> obj" where
  "step_task currentTask s =
     js_set ''stepConfig'' (config s) (js_set ''stepName'' (JStr (step_name s)) currentTask)"

text \<open>\<^verbatim>\<open>step.retries || 1\<close>.\<close>

definition step_retries :: "workflow_step \<Rightarrow> nat" where
  "step_retries s = (case retries s of None \<Rightarrow> 1 | Some n \<Rightarrow> if n = 0 then 1 else n)"

text \<open>
  One iteration of \<^verbatim>\<open>for (const step of workflow.steps)\<close>, with the loop's variables
  \<open>currentTask\<close> and \<open>results\<close>: it either goes on to the next step with new values
  of the two, or leaves the loop. An unregistered agent and an error raised by
  \<open>executeWithRetry\<close> leave it as a raised error (no \<^verbatim>\<open>catch\<close> stands inside the loop;
  the one around it logs and rethrows); a failed result of a step with
  \<^verbatim>\<open>escalateOnFailure\<close> leaves it returning what \<open>handleEscalation\<close> returns.
\<close>

datatype iteration = Continue obj "step_entry list" | Leave "thrown + workflow_result"

definition loop_body ::
  "'x process \<Rightarrow> workflow \<Rightarrow> workflow_step \<Rightarrow> obj \<Rightarrow> step_entry list \<Rightarrow> 'x orchestrator
     \<Rightarrow> iteration \<times> 'x orchestrator \<times> event list" where
  "loop_body proc workflow s currentTask results orch =
     (case map_of (agents orch) (agentName s) of
        None \<Rightarrow> (Leave (Inl (Error (''Agent not found: '' @ agentName s))), orch, [])
      | Some a \<Rightarrow>
          (case executeWithRetry proc a (step_task currentTask s) (Some (step_retries s)) of
             (Inl e, a', ev) \<Rightarrow>
               (Leave (Inl e), orch\<lparr> agents := AList.update (agentName s) a' (agents orch) \<rparr>, ev)
           | (Inr stepResult, a', ev) \<Rightarrow>
               (let orch' = orch\<lparr> agents := AList.update (agentName s) a' (agents orch) \<rparr>;
                    results' = results @ [\<lparr> entry_step = step_name s, entry_agent = agentName s,
                                            entry_result = stepResult \<rparr>]
                in if \<not> truthy (js_get stepResult ''success'') \<and> escalateOnFailure s
                   then (case handleEscalation proc workflow s stepResult results' orch' of
                           (out, orch'', ev') \<Rightarrow> (Leave out, orch'', ev @ ev'))
                   else (Continue
                           (if truthy (js_get stepResult ''data'')
                            then js_set ''data'' (js_get stepResult ''data'') currentTask
                            else currentTask)
                           results',
                         orch', ev))))"

text \<open>The loop over the steps still to run; after the last one the report
  \<^verbatim>\<open>{success: true, workflow: workflowName, results, ...}\<close> is returned.\<close>

fun run_steps ::
  "'x process \<Rightarrow> string \<Rightarrow> workflow \<Rightarrow> workflow_step list \<Rightarrow> obj \<Rightarrow> step_entry list
     \<Rightarrow> 'x orchestrator \<Rightarrow> (thrown + workflow_result) \<times> 'x orchestrator \<times> event list" where
  "run_steps proc workflowName workflow [] currentTask results orch =
     (Inr (Completed workflowName results), orch, [])"
| "run_steps proc workflowName workflow (s # rest) currentTask results orch =
     (case loop_body proc workflow s currentTask results orch of
        (Leave out, orch', ev) \<Rightarrow> (out, orch', ev)
      | (Continue currentTask' results', orch', ev) \<Rightarrow>
          (case run_steps proc workflowName workflow rest currentTask' results' orch' of
             (out, orch'', ev') \<Rightarrow> (out, orch'', ev @ ev')))"

text \<open>
  What the \<^verbatim>\<open>catch\<close> of \<open>executeWorkflow\<close> passes on: the error it caught, or the
  \<^verbatim>\<open>TypeError\<close> of its own read of \<^verbatim>\<open>error.message\<close>. (What \<open>handleEscalation\<close>
  raises does not pass through this \<^verbatim>\<open>catch\<close>, its promise being returned without
  \<^verbatim>\<open>await\<close>; it is an \<^verbatim>\<open>Error\<close>, which the \<^verbatim>\<open>catch\<close> would rethrow as it is.)
\<close>

definition rethrown :: "thrown + workflow_result \<Rightarrow> thrown + workflow_result" where
  "rethrown out =
     (case out of
        Inl e \<Rightarrow> (case read_message e of Some typeError \<Rightarrow> Inl typeError | None \<Rightarrow> Inl e)
      | Inr x \<Rightarrow> Inr x)"

text \<open>
  \<^verbatim>\<open>executeWorkflow(workflowName, initialTask)\<close>: the two guards, the increment, the loop,
  and the \<^verbatim>\<open>finally\<close> that decrements on every way out of the \<^verbatim>\<open>try\<close>. The two
  assignments to the counter are effects, each with the value the counter then has. (On
  \<^verbatim>\<open>return this.handleEscalation(...)\<close> the \<^verbatim>\<open>finally\<close> runs once the handler has been
  called.)
\<close>

definition executeWorkflow ::
  "'x process \<Rightarrow> string \<Rightarrow> obj \<Rightarrow> 'x orchestrator
     \<Rightarrow> (thrown + workflow_result) \<times> 'x orchestrator \<times> event list" where
  "executeWorkflow proc workflowName initialTask orch =
     (case map_of (workflows orch) workflowName of
        None \<Rightarrow> (Inl (Error (''Workflow not found: '' @ workflowName)), orch, [])
      | Some workflow \<Rightarrow>
          if activeTasksCount orch \<ge> maxConcurrentTasks orch
          then (Inl (Error ''Maximum concurrent tasks reached''), orch, [])
          else
            (let admitted = orch\<lparr> activeTasksCount := activeTasksCount orch + 1 \<rparr>
             in (case run_steps proc workflowName workflow (steps workflow) initialTask []
                        admitted of
                   (out, orch', ev) \<Rightarrow>
                     (let released = orch'\<lparr> activeTasksCount := activeTasksCount orch' - 1 \<rparr>
                      in (rethrown out, released,
                          ActiveTasks (activeTasksCount admitted) # ev @
                          [ActiveTasks (activeTasksCount released)])))))"

section \<open>Notions the properties are stated with\<close>

text \<open>
  The loop's variables, the orchestrator and the effects so far once the loop has gone
  through the given steps without leaving; \<open>None\<close> when it left at one of them.
\<close>

fun loop_state ::
  "'x process \<Rightarrow> workflow \<Rightarrow> workflow_step list \<Rightarrow> obj \<Rightarrow> step_entry list \<Rightarrow> 'x orchestrator
     \<Rightarrow> (obj \<times> step_entry list \<times> 'x orchestrator \<times> event list) option" where
  "loop_state proc workflow [] currentTask results orch = Some (currentTask, results, orch, [])"
| "loop_state proc workflow (s # rest) currentTask results orch =
     (case loop_body proc workflow s currentTask results orch of
        (Leave out, orch', ev) \<Rightarrow> None
      | (Continue currentTask' results', orch', ev) \<Rightarrow>
          (case loop_state proc workflow rest currentTask' results' orch' of
             None \<Rightarrow> None
           | Some (c, r, orch'', ev') \<Rightarrow> Some (c, r, orch'', ev @ ev')))"

text \<open>The number of \<^verbatim>\<open>process\<close> calls in a sequence of effects.\<close>

fun process_calls :: "event list \<Rightarrow> nat" where
  "process_calls [] = 0"
| "process_calls (Process n t # ev) = Suc (process_calls ev)"
| "process_calls (Sleep ms # ev) = process_calls ev"
| "process_calls (ActiveTasks n # ev) = process_calls ev"

text \<open>The values assigned to \<^verbatim>\<open>activeTasksCount\<close> in a sequence of effects.\<close>

fun counter_writes :: "event list \<Rightarrow> int list" where
  "counter_writes [] = []"
| "counter_writes (Process n t # ev) = counter_writes ev"
| "counter_writes (Sleep ms # ev) = counter_writes ev"
| "counter_writes (ActiveTasks n # ev) = n # counter_writes ev"

text \<open>
  The agent raises at each of its next \<open>k\<close> calls with the task, every time an
  \<^verbatim>\<open>Error\<close> or another value whose \<^verbatim>\<open>message\<close> can be read: the values raised, in
  order, and the agent after the last call; \<open>None\<close> when one of the calls returns or
  raises \<^verbatim>\<open>undefined\<close> or \<^verbatim>\<open>null\<close>.
\<close>

fun raises_throughout ::
  "'x process \<Rightarrow> 'x agent \<Rightarrow> obj \<Rightarrow> nat \<Rightarrow> (thrown list \<times> 'x agent) option" where
  "raises_throughout proc a task 0 = Some ([], a)"
| "raises_throughout proc a task (Suc k) =
     (case proc a task of
        (Returned r d, a') \<Rightarrow> None
      | (Raised m, a') \<Rightarrow>
          (case raises_throughout proc a' task k of
             None \<Rightarrow> None
           | Some (es, b) \<Rightarrow> Some (Error m # es, b))
      | (RaisedValue v, a') \<Rightarrow>
          if nullish v then None
          else (case raises_throughout proc a' task k of
                  None \<Rightarrow> None
                | Some (es, b) \<Rightarrow> Some (ThrownValue v # es, b)))"

text \<open>The escalation handler is called and rejects with \<^verbatim>\<open>undefined\<close> or
  \<^verbatim>\<open>null\<close>.\<close>

definition handler_rejects_nullish ::
  "'x process \<Rightarrow> workflow \<Rightarrow> workflow_step \<Rightarrow> obj \<Rightarrow> step_entry list \<Rightarrow> 'x orchestrator
     \<Rightarrow> bool" where
  "handler_rejects_nullish proc workflow failedStep err previousResults orch =
     (case escalationHandler workflow of
        None \<Rightarrow> False
      | Some h \<Rightarrow>
          h \<noteq> [] \<and>
          (case map_of (agents orch) h of
             None \<Rightarrow> False
           | Some handler \<Rightarrow>
               (case fst (proc handler
                            (escalation_task workflow failedStep err previousResults)) of
                  RaisedValue v \<Rightarrow> nullish v
                | Raised m \<Rightarrow> False
                | Returned r d \<Rightarrow> False)))"

text \<open>
  A test double: an agent whose own field is the list of what its next calls of
  \<^verbatim>\<open>process\<close> do, one entry used up by each call.
\<close>

definition scripted :: "(process_outcome list) process" where
  "scripted a task =
     (case own a of
        [] \<Rightarrow> (Raised ''nothing scripted'', a)
      | x # xs \<Rightarrow> (x, a\<lparr> own := xs \<rparr>))"

text \<open>Fixtures of the examples: a registry state and agents with scripted answers.\<close>

definition agentA :: "process_outcome list agent" where
  "agentA =
     new_agent ''A'' ''tester''
       [Returned [(''success'', JBool True), (''data'', JObj [(''v'', JNum 2)])] 5]"

definition agentF :: "process_outcome list agent" where
  "agentF =
     new_agent ''F'' ''tester''
       [Returned [(''success'', JBool False), (''error'', JStr ''bad input'')] 7,
        Returned [(''success'', JBool True), (''data'', JObj [])] 7]"

definition taskX :: obj where
  "taskX = [(''type'', JStr ''x''), (''data'', JObj [(''v'', JNum 1)])]"

text \<open>A stand-in for the \<^verbatim>\<open>switch\<close> table of a subclass: \<^verbatim>\<open>plan\<close> succeeds,
  \<^verbatim>\<open>decompose\<close> raises unless the data has a \<^verbatim>\<open>problem\<close>.\<close>

definition two_handlers :: "jsval \<Rightarrow> unit handler option" where
  "two_handlers ty =
     (if ty = JStr ''plan'' then Some (\<lambda>x d. (Inr (JObj [(''steps'', JArr [])]), x))
      else if ty = JStr ''decompose''
      then Some (\<lambda>x d. case d of
                   JObj ps \<Rightarrow>
                     if truthy (js_get ps ''problem'')
                     then (Inr (JObj [(''components'', JArr [])]), x)
                     else (Inl ''Invalid problem description'', x)
                 | _ \<Rightarrow> (Inl ''Invalid problem description'', x))
      else None)"

definition researchAgent :: "unit agent" where
  "researchAgent = new_agent ''ResearchAgent'' ''Planning and Information Gathering'' ()"

definition clock0 :: clock where
  "clock0 = \<lparr> duration = 3, stamped = ''2024-01-01T00:00:00.003Z'',
              now = ''2024-01-01T00:00:00.004Z'', elapsed = 4 \<rparr>"

definition taskDecompose :: obj where
  "taskDecompose = [(''type'', JStr ''decompose''), (''data'', JObj [])]"

definition taskNoData :: obj where
  "taskNoData = [(''type'', JStr ''plan'')]"

definition agentB :: "process_outcome list agent" where
  "agentB = new_agent ''B'' ''tester'' [Returned [(''success'', JBool True)] 1]"

definition agentG :: "process_outcome list agent" where
  "agentG = new_agent ''G'' ''tester'' [Returned [(''success'', JBool False)] 1]"

definition agentR :: "process_outcome list agent" where
  "agentR =
     new_agent ''R'' ''tester''
       [Raised ''boom'', Raised ''boom'', Returned [(''success'', JBool True)] 1]"

definition agentRF :: "process_outcome list agent" where
  "agentRF =
     new_agent ''RF'' ''tester''
       [Raised ''boom'', Returned [(''success'', JBool False)] 1,
        Returned [(''success'', JBool True)] 1]"

definition agentH :: "process_outcome list agent" where
  "agentH =
     new_agent ''H'' ''handler''
       [Returned [(''success'', JBool True), (''data'', JObj [(''handled'', JBool True)])] 2]"

definition agentHbad :: "process_outcome list agent" where
  "agentHbad = new_agent ''Hbad'' ''handler'' [Raised ''handler down'']"

definition stepOf :: "string \<Rightarrow> string \<Rightarrow> nat option \<Rightarrow> bool \<Rightarrow> workflow_step" where
  "stepOf n ag r e =
     \<lparr> step_name = n, agentName = ag, config = JObj [], retries = r, escalateOnFailure = e \<rparr>"

definition stepA :: workflow_step where "stepA = stepOf ''a'' ''A'' (Some 1) False"

definition stepB :: workflow_step where "stepB = stepOf ''b'' ''B'' (Some 1) False"

definition stepF :: workflow_step where "stepF = stepOf ''f'' ''F'' (Some 1) False"

definition stepG :: workflow_step where "stepG = stepOf ''g'' ''G'' (Some 1) True"

definition stepR2 :: workflow_step where "stepR2 = stepOf ''r'' ''R'' (Some 2) True"

definition stepR0 :: workflow_step where "stepR0 = stepOf ''r'' ''R'' None False"

definition wfAB :: workflow where
  "wfAB = \<lparr> wf_name = ''ab'', steps = [stepA, stepB], escalationHandler = None \<rparr>"

definition wfR2 :: workflow where
  "wfR2 = \<lparr> wf_name = ''r2'', steps = [stepR2], escalationHandler = Some ''H'' \<rparr>"

definition wfR0 :: workflow where
  "wfR0 = \<lparr> wf_name = ''r0'', steps = [stepR0], escalationHandler = None \<rparr>"

definition wfFB :: workflow where
  "wfFB = \<lparr> wf_name = ''fb'', steps = [stepF, stepB], escalationHandler = None \<rparr>"

definition wfFGB :: workflow where
  "wfFGB = \<lparr> wf_name = ''fgb'', steps = [stepF, stepG, stepB],
             escalationHandler = Some ''H'' \<rparr>"

definition wfGbad :: workflow where
  "wfGbad = \<lparr> wf_name = ''gbad'', steps = [stepG], escalationHandler = Some ''Hbad'' \<rparr>"

definition orch0 :: "process_outcome list orchestrator" where
  "orch0 =
     \<lparr> agents = [(''A'', agentA), (''B'', agentB), (''F'', agentF), (''G'', agentG),
                 (''R'', agentR), (''H'', agentH), (''Hbad'', agentHbad)],
       workflows = [(''ab'', wfAB), (''r2'', wfR2), (''r0'', wfR0), (''fb'', wfFB),
                    (''fgb'', wfFGB), (''gbad'', wfGbad)],
       activeTasksCount = 0, maxConcurrentTasks = 10 \<rparr>"

text \<open>A handler that rejects with \<^verbatim>\<open>undefined\<close>, a workflow escalating to it, a
  workflow whose second step raises at both attempts, and a registry with them.\<close>

definition agentHnull :: "process_outcome list agent" where
  "agentHnull = new_agent ''Hnull'' ''handler'' [RaisedValue JUndefined]"

definition wfGnull :: workflow where
  "wfGnull = \<lparr> wf_name = ''gnull'', steps = [stepG, stepB],
               escalationHandler = Some ''Hnull'' \<rparr>"

definition wfARB :: workflow where
  "wfARB = \<lparr> wf_name = ''arb'', steps = [stepA, stepR2, stepB],
             escalationHandler = Some ''H'' \<rparr>"

definition orch1 :: "process_outcome list orchestrator" where
  "orch1 =
     orch0\<lparr> agents := agents orch0 @ [(''Hnull'', agentHnull)],
            workflows := workflows orch0 @ [(''gnull'', wfGnull), (''arb'', wfARB)] \<rparr>"

text \<open>The same orchestrator with ten executions in flight.\<close>

definition orchFull :: "process_outcome list orchestrator" where
  "orchFull = orch0\<lparr> activeTasksCount := 10 \<rparr>"

section \<open>Association lists as \<^verbatim>\<open>Map\<close>s\<close>

lemma update_absent: "map_of ps k = None \<Longrightarrow> AList.update k v ps = ps @ [(k, v)]"
  by (induction ps) (auto split: if_splits)

lemma map_of_update_same: "map_of (AList.update k v ps) k = Some v"
  by (simp add: update_conv')

lemma map_of_update_other: "k' \<noteq> k \<Longrightarrow> map_of (AList.update k v ps) k' = map_of ps k'"
  by (simp add: update_conv')

section \<open>The agent registry\<close>

text \<open>
  C7. Registering an agent whose name is already present raises the duplicate-name error
  and leaves the orchestrator (so the registry and its size) as it was; with the name
  absent the agent is inserted, at the end of the registry. Whatever the first call did,
  a second registration under the same name fails and changes nothing.
\<close>

theorem registerAgent_duplicate:
  "(map_of (agents orch) (name a) \<noteq> None \<longrightarrow>
      registerAgent a orch =
        (Inl (Error (''Agent '' @ name a @ '' is already registered'')), orch))
   \<and> (map_of (agents orch) (name a) = None \<longrightarrow>
      registerAgent a orch = (Inr (), orch\<lparr> agents := agents orch @ [(name a, a)] \<rparr>))
   \<and> (\<forall>b. name b = name a \<longrightarrow>
        registerAgent b (snd (registerAgent a orch)) =
          (Inl (Error (''Agent '' @ name a @ '' is already registered'')),
           snd (registerAgent a orch)))"
  by (auto simp: registerAgent_def update_absent map_of_update_same)

theorem registerAgent_duplicate_witness:
  "registerAgent agentA (new_orchestrator\<lparr> agents := [(''A'', agentA)] \<rparr>) =
     (Inl (Error ''Agent A is already registered''),
      new_orchestrator\<lparr> agents := [(''A'', agentA)] \<rparr>)
   \<and> registerAgent agentA new_orchestrator =
       (Inr (), new_orchestrator\<lparr> agents := [(''A'', agentA)] \<rparr>)
   \<and> fst (registerAgent agentA (snd (registerAgent agentA new_orchestrator))) =
       Inl (Error ''Agent A is already registered'')
   \<and> length (agents (snd (registerAgent agentA (snd (registerAgent agentA new_orchestrator)))))
       = 1"
  using registerAgent_duplicate [of "new_orchestrator\<lparr> agents := [(''A'', agentA)] \<rparr>" agentA]
    registerAgent_duplicate [of "new_orchestrator" agentA]
  by (simp add: agentA_def new_agent_def new_orchestrator_def)

section \<open>The retry loop\<close>

lemma loop_returned:
  assumes "attempt \<le> maxRetries" and "proc a task = (Returned r d, a')"
  shows "executeWithRetry_loop proc a task maxRetries attempt lastError =
           (Inr r, updateMetrics (real d) False a', [Process (name a) task])"
  using assms by (simp add: executeWithRetry_loop.simps)

lemma loop_raised:
  assumes "attempt \<le> maxRetries" and "proc a task = (Raised m, a')"
  shows "executeWithRetry_loop proc a task maxRetries attempt lastError =
           (case executeWithRetry_loop proc a' task maxRetries (attempt + 1) (Error m) of
              (out, a'', ev) \<Rightarrow>
                (out, a'', Process (name a) task #
                   (if attempt < maxRetries then [Sleep (2 ^ attempt * 100)] else []) @ ev))"
  using assms by (subst executeWithRetry_loop.simps) simp

lemma loop_exhausted:
  assumes "maxRetries < attempt"
  shows "executeWithRetry_loop proc a task maxRetries attempt lastError =
           (Inl lastError, updateMetrics 0 True a, [])"
  using assms by (simp add: executeWithRetry_loop.simps)

text \<open>
  C9. When \<^verbatim>\<open>agent.process\<close> returns on an attempt, the loop returns that result from
  that attempt, whatever its \<^verbatim>\<open>success\<close>: the only effect is that one call (no further
  attempt, no sleep), followed by the orchestrator's \<^verbatim>\<open>updateMetrics(duration, false)\<close>.
  So does \<open>executeWithRetry\<close> when the first attempt returns.
\<close>

theorem executeWithRetry_returns_at_once:
  assumes "proc a task = (Returned r d, a')"
  shows "(attempt \<le> maxRetries \<longrightarrow>
            executeWithRetry_loop proc a task maxRetries attempt lastError =
              (Inr r, updateMetrics (real d) False a', [Process (name a) task]))
         \<and> (1 \<le> (case limit of None \<Rightarrow> 3 | Some n \<Rightarrow> n) \<longrightarrow>
            executeWithRetry proc a task limit =
              (Inr r, updateMetrics (real d) False a', [Process (name a) task]))"
  using assms by (simp add: executeWithRetry_def loop_returned)

theorem executeWithRetry_returns_at_once_witness:
  "scripted agentF taskX =
     (Returned [(''success'', JBool False), (''error'', JStr ''bad input'')] 7,
      agentF\<lparr> own := [Returned [(''success'', JBool True), (''data'', JObj [])] 7] \<rparr>)
   \<and> executeWithRetry scripted agentF taskX (Some 3) =
       (Inr [(''success'', JBool False), (''error'', JStr ''bad input'')],
        updateMetrics 7 False
          (agentF\<lparr> own := [Returned [(''success'', JBool True), (''data'', JObj [])] 7] \<rparr>),
        [Process ''F'' taskX])
   \<and> executeWithRetry scripted agentF taskX None =
       (Inr [(''success'', JBool False), (''error'', JStr ''bad input'')],
        updateMetrics 7 False
          (agentF\<lparr> own := [Returned [(''success'', JBool True), (''data'', JObj [])] 7] \<rparr>),
        [Process ''F'' taskX])
   \<and> scripted (agentRF\<lparr> own := tl (own agentRF) \<rparr>) taskX =
       (Returned [(''success'', JBool False)] 1,
        agentRF\<lparr> own := [Returned [(''success'', JBool True)] 1] \<rparr>)
   \<and> executeWithRetry_loop scripted (agentRF\<lparr> own := tl (own agentRF) \<rparr>) taskX 3 2
         (Error ''boom'') =
       (Inr [(''success'', JBool False)],
        updateMetrics 1 False (agentRF\<lparr> own := [Returned [(''success'', JBool True)] 1] \<rparr>),
        [Process ''RF'' taskX])
   \<and> executeWithRetry scripted agentRF taskX (Some 3) =
       (Inr [(''success'', JBool False)],
        updateMetrics 1 False (agentRF\<lparr> own := [Returned [(''success'', JBool True)] 1] \<rparr>),
        [Process ''RF'' taskX, Sleep 200, Process ''RF'' taskX])"
proof -
  have s: "scripted agentF taskX =
     (Returned [(''success'', JBool False), (''error'', JStr ''bad input'')] 7,
      agentF\<lparr> own := [Returned [(''success'', JBool True), (''data'', JObj [])] 7] \<rparr>)"
    by (simp add: scripted_def agentF_def new_agent_def)
  have n: "name agentF = ''F''" "name (agentRF\<lparr> own := tl (own agentRF) \<rparr>) = ''RF''"
    by (simp_all add: agentF_def agentRF_def new_agent_def)
  have s2: "scripted (agentRF\<lparr> own := tl (own agentRF) \<rparr>) taskX =
       (Returned [(''success'', JBool False)] 1,
        agentRF\<lparr> own := [Returned [(''success'', JBool True)] 1] \<rparr>)"
    by (simp add: scripted_def agentRF_def new_agent_def)
  have e: "executeWithRetry scripted agentRF taskX (Some 3) =
       (Inr [(''success'', JBool False)],
        updateMetrics 1 False (agentRF\<lparr> own := [Returned [(''success'', JBool True)] 1] \<rparr>),
        [Process ''RF'' taskX, Sleep 200, Process ''RF'' taskX])"
    by (simp add: executeWithRetry_def executeWithRetry_loop.simps scripted_def agentRF_def
          new_agent_def)
  show ?thesis
    using s n s2 e
      executeWithRetry_returns_at_once [where proc = scripted and a = agentF and task = taskX
        and attempt = 1 and maxRetries = 3 and limit = "Some 3"]
      executeWithRetry_returns_at_once [where proc = scripted and a = agentF and task = taskX
        and attempt = 1 and maxRetries = 3 and limit = None]
      executeWithRetry_returns_at_once [where proc = scripted
        and a = "agentRF\<lparr> own := tl (own agentRF) \<rparr>" and task = taskX
        and attempt = 2 and maxRetries = 3 and limit = None and lastError = "Error ''boom''"]
    by simp
qed

section \<open>Metrics of an orchestrated call\<close>

lemma tasksProcessed_updateMetrics:
  "tasksProcessed (metrics (updateMetrics t e a)) = tasksProcessed (metrics a) + 1"
  by (simp add: updateMetrics_def Let_def)

lemma errors_updateMetrics:
  "errors (metrics (updateMetrics t e a)) = errors (metrics a) + (if e then 1 else 0)"
  by (simp add: updateMetrics_def Let_def)

lemma process_invalid:
  "validateTask task = Some m \<Longrightarrow> process busy handlers clk a task = (Raised m, a)"
  by (simp add: process_def)

lemma handleError_counts:
  assumes "handleError t m task a = (r, a')"
  shows "js_get r ''success'' = JBool False"
    and "tasksProcessed (metrics a') = tasksProcessed (metrics a) + 1"
    and "errors (metrics a') = errors (metrics a) + 1"
  using assms
  by (auto simp: handleError_def setState_def Let_def js_get_def
        tasksProcessed_updateMetrics errors_updateMetrics)

lemma process_valid:
  assumes "validateTask task = None"
  shows "\<exists>r a'. process busy handlers clk a task = (Returned r (elapsed clk), a')
           \<and> tasksProcessed (metrics a') = tasksProcessed (metrics a) + 1
           \<and> errors (metrics a') =
               errors (metrics a) + (if js_get r ''success'' = JBool False then 1 else 0)"
proof (cases "handlers (js_get task ''type'')")
  case None
  obtain r a' where h: "handleError (now clk)
      (''Unknown task type: '' @ template (js_get task ''type'')) task (setState busy a) = (r, a')"
    by (cases "handleError (now clk)
      (''Unknown task type: '' @ template (js_get task ''type'')) task (setState busy a)")
  have "process busy handlers clk a task = (Returned r (elapsed clk), a')"
    using assms None h by (simp add: process_def Let_def)
  then show ?thesis
    using handleError_counts [OF h] by (simp add: setState_def)
next
  case (Some h)
  obtain res x where hx: "h (own (setState busy a)) (js_get task ''data'') = (res, x)"
    by (cases "h (own (setState busy a)) (js_get task ''data'')")
  show ?thesis
  proof (cases res)
    case (Inl m)
    obtain r a' where e: "handleError (now clk) m task ((setState busy a)\<lparr> own := x \<rparr>) = (r, a')"
      by (cases "handleError (now clk) m task ((setState busy a)\<lparr> own := x \<rparr>)")
    have "process busy handlers clk a task = (Returned r (elapsed clk), a')"
      using assms Some hx Inl e by (simp add: process_def Let_def)
    then show ?thesis
      using handleError_counts [OF e] by (simp add: setState_def)
  next
    case (Inr v)
    have "process busy handlers clk a task =
            (Returned [(''success'', JBool True),
                       (''agent'', JStr (name (setState ''idle'' (recordTask (stamped clk) task v JNull
                          (updateMetrics (real (duration clk)) False ((setState busy a)\<lparr> own := x \<rparr>)))))),
                       (''data'', v), (''timestamp'', JStr (now clk))] (elapsed clk),
             setState ''idle'' (recordTask (stamped clk) task v JNull
               (updateMetrics (real (duration clk)) False ((setState busy a)\<lparr> own := x \<rparr>))))"
      using assms Some hx Inr by (simp add: process_def Let_def)
    then show ?thesis
      by (simp add: setState_def recordTask_def Let_def js_get_def
            tasksProcessed_updateMetrics errors_updateMetrics)
  qed
qed

lemma loop_always_raised:
  assumes "\<And>b. proc b task = (Raised m, b)"
  shows "1 \<le> attempt \<Longrightarrow> attempt \<le> maxRetries \<Longrightarrow>
         \<exists>ev. executeWithRetry_loop proc a task maxRetries attempt lastError =
                 (Inl (Error m), updateMetrics 0 True a, ev)
               \<and> process_calls ev = maxRetries + 1 - attempt"
proof (induction "maxRetries - attempt" arbitrary: attempt lastError)
  case 0
  then have "attempt = maxRetries" by simp
  then show ?case
    using assms by (simp add: loop_raised loop_exhausted)
next
  case (Suc k)
  then have lt: "attempt < maxRetries" and k: "k = maxRetries - (attempt + 1)" by simp_all
  from Suc.hyps(1) [OF k, of "Error m"] lt
  obtain ev where
    "executeWithRetry_loop proc a task maxRetries (attempt + 1) (Error m) =
       (Inl (Error m), updateMetrics 0 True a, ev)"
    "process_calls ev = maxRetries + 1 - (attempt + 1)"
    by auto
  then show ?case
    using assms lt by (simp add: loop_raised)
qed

text \<open>
  C10. A returning attempt is followed by the orchestrator's own
  \<^verbatim>\<open>updateMetrics(duration, false)\<close> on top of what the agent did to itself, and leaving
  the loop after the last attempt by \<^verbatim>\<open>updateMetrics(0, true)\<close>. For an agent with the
  repository's \<open>process\<close>: a task that passes validation is answered at the first
  attempt and counts twice in \<^verbatim>\<open>tasksProcessed\<close> (and once in \<^verbatim>\<open>errors\<close> when the
  answer is a failed result); a task that fails validation raises at every attempt and
  the orchestrator's final update counts it once in both.
\<close>

theorem orchestrated_metrics:
  "(attempt \<le> maxRetries \<and> proc a task = (Returned r d, a') \<longrightarrow>
      fst (snd (executeWithRetry_loop proc a task maxRetries attempt lastError)) =
        updateMetrics (real d) False a')
   \<and> (maxRetries < attempt \<longrightarrow>
      executeWithRetry_loop proc a task maxRetries attempt lastError =
        (Inl lastError, updateMetrics 0 True a, []))
   \<and> (validateTask task = None \<and> 1 \<le> n \<longrightarrow>
      (\<exists>res b. executeWithRetry (process busy handlers clk) a task (Some n) =
                 (Inr res, b, [Process (name a) task])
         \<and> tasksProcessed (metrics b) = tasksProcessed (metrics a) + 2
         \<and> errors (metrics b) =
             errors (metrics a) + (if js_get res ''success'' = JBool False then 1 else 0)))
   \<and> (validateTask task \<noteq> None \<and> 1 \<le> n \<longrightarrow>
      (\<exists>m ev. executeWithRetry (process busy handlers clk) a task (Some n) =
                 (Inl (Error m), updateMetrics 0 True a, ev)
         \<and> process_calls ev = n
         \<and> tasksProcessed (metrics (updateMetrics 0 True a)) = tasksProcessed (metrics a) + 1
         \<and> errors (metrics (updateMetrics 0 True a)) = errors (metrics a) + 1))"
proof (intro conjI impI)
  assume "attempt \<le> maxRetries \<and> proc a task = (Returned r d, a')"
  then show "fst (snd (executeWithRetry_loop proc a task maxRetries attempt lastError)) =
        updateMetrics (real d) False a'"
    by (simp add: loop_returned)
next
  assume "maxRetries < attempt"
  then show "executeWithRetry_loop proc a task maxRetries attempt lastError =
        (Inl lastError, updateMetrics 0 True a, [])"
    by (rule loop_exhausted)
next
  assume v: "validateTask task = None \<and> 1 \<le> n"
  then obtain res a' where p: "process busy handlers clk a task = (Returned res (elapsed clk), a')"
    and t: "tasksProcessed (metrics a') = tasksProcessed (metrics a) + 1"
    and e: "errors (metrics a') =
               errors (metrics a) + (if js_get res ''success'' = JBool False then 1 else 0)"
    using process_valid [of task busy handlers clk a] by blast
  have "executeWithRetry (process busy handlers clk) a task (Some n) =
          (Inr res, updateMetrics (real (elapsed clk)) False a', [Process (name a) task])"
    using v p by (simp add: executeWithRetry_def loop_returned)
  then show "\<exists>res b. executeWithRetry (process busy handlers clk) a task (Some n) =
                 (Inr res, b, [Process (name a) task])
         \<and> tasksProcessed (metrics b) = tasksProcessed (metrics a) + 2
         \<and> errors (metrics b) =
             errors (metrics a) + (if js_get res ''success'' = JBool False then 1 else 0)"
    using t e by (simp add: tasksProcessed_updateMetrics errors_updateMetrics)
next
  assume v: "validateTask task \<noteq> None \<and> 1 \<le> n"
  then obtain m where m: "validateTask task = Some m" by auto
  then have "\<And>b. process busy handlers clk b task = (Raised m, b)"
    by (rule process_invalid)
  from loop_always_raised [of "process busy handlers clk" task m 1 n a ThrownUndefined, OF this] v
  obtain ev where "executeWithRetry_loop (process busy handlers clk) a task n 1 ThrownUndefined =
                 (Inl (Error m), updateMetrics 0 True a, ev)" "process_calls ev = n"
    by auto
  then show "\<exists>m ev. executeWithRetry (process busy handlers clk) a task (Some n) =
                 (Inl (Error m), updateMetrics 0 True a, ev)
         \<and> process_calls ev = n
         \<and> tasksProcessed (metrics (updateMetrics 0 True a)) = tasksProcessed (metrics a) + 1
         \<and> errors (metrics (updateMetrics 0 True a)) = errors (metrics a) + 1"
    by (simp add: executeWithRetry_def tasksProcessed_updateMetrics errors_updateMetrics)
qed


theorem orchestrated_metrics_witness:
  "validateTask taskDecompose = None \<and> validateTask taskNoData \<noteq> None \<and> (1::nat) \<le> 2
   \<and> tasksProcessed (metrics researchAgent) = 0 \<and> errors (metrics researchAgent) = 0
   \<and> scripted agentF taskX =
       (Returned [(''success'', JBool False), (''error'', JStr ''bad input'')] 7,
        agentF\<lparr> own := [Returned [(''success'', JBool True), (''data'', JObj [])] 7] \<rparr>)
   \<and> fst (snd (executeWithRetry_loop scripted agentF taskX 3 1 ThrownUndefined)) =
       updateMetrics 7 False
         (agentF\<lparr> own := [Returned [(''success'', JBool True), (''data'', JObj [])] 7] \<rparr>)
   \<and> executeWithRetry_loop scripted agentF taskX 3 4 (Error ''e'') =
       (Inl (Error ''e''), updateMetrics 0 True agentF, [])
   \<and> (\<exists>res b. executeWithRetry (process ''processing'' two_handlers clock0) researchAgent
                 taskDecompose (Some 2) =
                 (Inr res, b, [Process (name researchAgent) taskDecompose])
         \<and> tasksProcessed (metrics b) = tasksProcessed (metrics researchAgent) + 2
         \<and> errors (metrics b) =
             errors (metrics researchAgent) +
             (if js_get res ''success'' = JBool False then 1 else 0))
   \<and> (\<exists>m ev. executeWithRetry (process ''processing'' two_handlers clock0) researchAgent
                 taskNoData (Some 2) =
                 (Inl (Error m), updateMetrics 0 True researchAgent, ev)
         \<and> process_calls ev = 2
         \<and> tasksProcessed (metrics (updateMetrics 0 True researchAgent)) =
             tasksProcessed (metrics researchAgent) + 1
         \<and> errors (metrics (updateMetrics 0 True researchAgent)) =
             errors (metrics researchAgent) + 1)
   \<and> js_get (case fst (executeWithRetry (process ''processing'' two_handlers clock0)
                          researchAgent taskDecompose (Some 2)) of
                Inr r \<Rightarrow> r | Inl e \<Rightarrow> []) ''success'' = JBool False
   \<and> tasksProcessed (metrics (fst (snd (executeWithRetry
         (process ''processing'' two_handlers clock0) researchAgent taskDecompose (Some 2))))) = 2
   \<and> errors (metrics (fst (snd (executeWithRetry
         (process ''processing'' two_handlers clock0) researchAgent taskDecompose (Some 2))))) = 1"
proof -
  have c5: "js_get (case fst (executeWithRetry (process ''processing'' two_handlers clock0)
                          researchAgent taskDecompose (Some 2)) of
                Inr r \<Rightarrow> r | Inl e \<Rightarrow> []) ''success'' = JBool False
   \<and> tasksProcessed (metrics (fst (snd (executeWithRetry
         (process ''processing'' two_handlers clock0) researchAgent taskDecompose (Some 2))))) = 2
   \<and> errors (metrics (fst (snd (executeWithRetry
         (process ''processing'' two_handlers clock0) researchAgent taskDecompose (Some 2))))) = 1"
    by (simp add: executeWithRetry_def executeWithRetry_loop.simps process_def validateTask_def
          taskDecompose_def js_get_def two_handlers_def handleError_def setState_def
          updateMetrics_def researchAgent_def new_agent_def clock0_def Let_def)
  let ?a' = "agentF\<lparr> own := [Returned [(''success'', JBool True), (''data'', JObj [])] 7] \<rparr>"
  let ?r = "[(''success'', JBool False), (''error'', JStr ''bad input'')]"
  have v: "validateTask taskDecompose = None" "validateTask taskNoData \<noteq> None"
    by (simp_all add: validateTask_def taskDecompose_def taskNoData_def js_get_def)
  have s: "scripted agentF taskX = (Returned ?r 7, ?a')"
    by (simp add: scripted_def agentF_def new_agent_def)
  have m: "tasksProcessed (metrics researchAgent) = 0" "errors (metrics researchAgent) = 0"
    by (simp_all add: researchAgent_def new_agent_def)
  note inst1 = orchestrated_metrics [of 1 3 scripted agentF taskX ?r 7 ?a' ThrownUndefined
      2 "''processing''" "\<lambda>ty. None" clock0]
  note inst2 = orchestrated_metrics [of 4 3 scripted agentF taskX ?r 7 ?a' "Error ''e''"
      2 "''processing''" "\<lambda>ty. None" clock0]
  note inst3 = orchestrated_metrics [of 4 3 "process ''processing'' two_handlers clock0"
      researchAgent taskDecompose ?r 7 researchAgent ThrownUndefined
      2 "''processing''" two_handlers clock0]
  note inst4 = orchestrated_metrics [of 4 3 "process ''processing'' two_handlers clock0"
      researchAgent taskNoData ?r 7 researchAgent ThrownUndefined
      2 "''processing''" two_handlers clock0]
  have c1: "fst (snd (executeWithRetry_loop scripted agentF taskX 3 1 ThrownUndefined)) =
       updateMetrics 7 False ?a'"
    using inst1 s by simp
  have c2: "executeWithRetry_loop scripted agentF taskX 3 4 (Error ''e'') =
       (Inl (Error ''e''), updateMetrics 0 True agentF, [])"
    using inst2 by simp
  have two: "(1::nat) \<le> 2" by simp
  from inst3 v(1) two
  have c3: "\<exists>res b. executeWithRetry (process ''processing'' two_handlers clock0) researchAgent
                 taskDecompose (Some 2) =
                 (Inr res, b, [Process (name researchAgent) taskDecompose])
         \<and> tasksProcessed (metrics b) = tasksProcessed (metrics researchAgent) + 2
         \<and> errors (metrics b) =
             errors (metrics researchAgent) +
             (if js_get res ''success'' = JBool False then 1 else 0)"
    by blast
  from inst4 v(2) two
  have c4: "\<exists>m ev. executeWithRetry (process ''processing'' two_handlers clock0) researchAgent
                 taskNoData (Some 2) =
                 (Inl (Error m), updateMetrics 0 True researchAgent, ev)
         \<and> process_calls ev = 2
         \<and> tasksProcessed (metrics (updateMetrics 0 True researchAgent)) =
             tasksProcessed (metrics researchAgent) + 1
         \<and> errors (metrics (updateMetrics 0 True researchAgent)) =
             errors (metrics researchAgent) + 1"
    by blast
  from v two m s c1 c2 c3 c4 c5 show ?thesis
    by blast
qed

lemmas fixture_defs = orch0_def orch1_def orchFull_def wfGnull_def wfARB_def agentHnull_def
  wfAB_def wfR2_def wfR0_def wfFB_def wfFGB_def
  wfGbad_def stepA_def stepB_def stepF_def stepG_def stepR2_def stepR0_def stepOf_def
  agentA_def agentB_def agentF_def agentG_def agentR_def agentRF_def agentH_def agentHbad_def
  new_agent_def
  taskX_def

lemmas run_defs = executeWorkflow_def loop_body_def executeWithRetry_def
  executeWithRetry_loop.simps scripted_def step_task_def step_retries_def js_set_def js_get_def
  handleEscalation_def escalation_task_def entry_value_def Let_def rethrown_def read_message_def
  nullish_def message_TypeError_def

section \<open>Effects of the retry loop\<close>

lemma process_calls_append: "process_calls (xs @ ys) = process_calls xs + process_calls ys"
  by (induction xs rule: process_calls.induct) simp_all

lemma counter_writes_append: "counter_writes (xs @ ys) = counter_writes xs @ counter_writes ys"
  by (induction xs rule: counter_writes.induct) simp_all

lemma read_message_cases:
  "read_message e = None \<or> (\<exists>v. nullish v \<and> e = ThrownValue v \<and> read_message e = Some (message_TypeError v))"
  by (cases e) (auto simp: read_message_def)

lemma read_message_TypeError [simp]: "read_message (message_TypeError v) = None"
  by (simp add: read_message_def message_TypeError_def)

lemma read_message_Error [simp]: "read_message (Error m) = None"
  by (simp add: read_message_def)

lemma loop_raised_value:
  assumes "attempt \<le> maxRetries" and "proc a task = (RaisedValue v, a')" and "\<not> nullish v"
  shows "executeWithRetry_loop proc a task maxRetries attempt lastError =
           (case executeWithRetry_loop proc a' task maxRetries (attempt + 1) (ThrownValue v) of
              (out, a'', ev) \<Rightarrow>
                (out, a'', Process (name a) task #
                   (if attempt < maxRetries then [Sleep (2 ^ attempt * 100)] else []) @ ev))"
  using assms by (subst executeWithRetry_loop.simps) (simp add: read_message_def)

lemma loop_raised_nullish:
  assumes "attempt \<le> maxRetries" and "proc a task = (RaisedValue v, a')" and "nullish v"
  shows "executeWithRetry_loop proc a task maxRetries attempt lastError =
           (Inl (message_TypeError v), a', [Process (name a) task])"
  using assms by (subst executeWithRetry_loop.simps) (simp add: read_message_def)

text \<open>The four things an attempt can do.\<close>

lemma attempt_cases:
  obtains
    (returned) r d a' where "proc a task = (Returned r d, a')"
  | (raised) e a' where
      "proc a task = (Raised e, a') \<or> (\<exists>v. proc a task = (RaisedValue v, a') \<and> \<not> nullish v)"
  | (nullish) v a' where "proc a task = (RaisedValue v, a')" "nullish v"
proof -
  obtain po a1 where p: "proc a task = (po, a1)" by (cases "proc a task") auto
  show ?thesis
  proof (cases po)
    case (Raised m)
    with p show ?thesis by (auto intro: raised)
  next
    case (RaisedValue v)
    with p show ?thesis by (cases "nullish v") (auto intro: raised nullish)
  next
    case (Returned r d)
    with p show ?thesis by (auto intro: returned)
  qed
qed

text \<open>
  Whatever the loop does from an attempt on: it never assigns the counter; it calls the
  agent at most once per attempt left, and at least once when an attempt is left; when it
  raises, it has used every attempt left, or what it raises is the \<^verbatim>\<open>TypeError\<close> of
  the \<^verbatim>\<open>catch\<close> block.
\<close>

lemma loop_effects:
  "executeWithRetry_loop proc a task maxRetries attempt lastError = (out, a', ev) \<Longrightarrow>
     counter_writes ev = []
     \<and> process_calls ev \<le> maxRetries + 1 - attempt
     \<and> (attempt \<le> maxRetries \<longrightarrow> 1 \<le> process_calls ev)
     \<and> (\<forall>e. out = Inl e \<longrightarrow>
           process_calls ev = maxRetries + 1 - attempt
           \<or> (\<exists>v. nullish v \<and> e = message_TypeError v))
     \<and> (read_message lastError = None \<or> attempt \<le> maxRetries \<longrightarrow>
           (\<forall>e. out = Inl e \<longrightarrow> read_message e = None))"
proof (induction "maxRetries + 1 - attempt" arbitrary: attempt a lastError out a' ev)
  case 0
  then have "maxRetries < attempt" by simp
  with 0 show ?case by (auto simp: loop_exhausted)
next
  case (Suc k)
  then have le: "attempt \<le> maxRetries" and k: "k = maxRetries + 1 - (attempt + 1)" by simp_all
  obtain po a1 where p: "proc a task = (po, a1)" by (cases "proc a task") auto
  have step: ?case
    if r2: "executeWithRetry_loop proc a1 task maxRetries (attempt + 1) e2 = (out2, a2, ev2)"
      and rd: "read_message e2 = None"
      and eq: "executeWithRetry_loop proc a task maxRetries attempt lastError =
                 (out2, a2, Process (name a) task #
                    (if attempt < maxRetries then [Sleep (2 ^ attempt * 100)] else []) @ ev2)"
    for e2 out2 a2 ev2
  proof -
    from Suc.prems eq have o: "out = out2"
      and e: "ev = Process (name a) task #
                   (if attempt < maxRetries then [Sleep (2 ^ attempt * 100)] else []) @ ev2"
      by simp_all
    from Suc.hyps(1) [OF k r2] Suc.hyps(2) o e rd show ?thesis
      by (auto simp: process_calls_append counter_writes_append)
  qed
  show ?case
  proof (cases po)
    case (Returned r d)
    from Suc.prems
      loop_returned [where proc = proc and a = a and task = task and lastError = lastError,
        OF le p [unfolded Returned]] Suc.hyps(2)
    show ?thesis by auto
  next
    case (Raised m)
    obtain out2 a2 ev2 where r2:
      "executeWithRetry_loop proc a1 task maxRetries (attempt + 1) (Error m) = (out2, a2, ev2)"
      by (cases "executeWithRetry_loop proc a1 task maxRetries (attempt + 1) (Error m)") auto
    from loop_raised [where proc = proc and a = a and task = task and lastError = lastError,
        OF le p [unfolded Raised]] r2
    show ?thesis by (intro step [OF r2]) simp_all
  next
    case (RaisedValue v)
    show ?thesis
    proof (cases "nullish v")
      case True
      from Suc.prems
        loop_raised_nullish [where proc = proc and a = a and task = task
          and lastError = lastError, OF le p [unfolded RaisedValue] True] Suc.hyps(2) True
      show ?thesis by auto
    next
      case False
      obtain out2 a2 ev2 where r2:
        "executeWithRetry_loop proc a1 task maxRetries (attempt + 1) (ThrownValue v) =
           (out2, a2, ev2)"
        by (cases "executeWithRetry_loop proc a1 task maxRetries (attempt + 1) (ThrownValue v)")
           auto
      from loop_raised_value [where proc = proc and a = a and task = task
          and lastError = lastError, OF le p [unfolded RaisedValue] False] r2 False
      show ?thesis by (intro step [OF r2]) (simp_all add: read_message_def)
    qed
  qed
qed

text \<open>When the agent raises readable errors at every attempt left, the loop raises the
  last of them, after \<^verbatim>\<open>updateMetrics(0, true)\<close> on the agent as the last attempt left
  it; with no attempt left it raises \<open>lastError\<close>.\<close>

lemma loop_raises_last:
  "raises_throughout proc a task k = Some (es, b) \<Longrightarrow> attempt + k = maxRetries + 1 \<Longrightarrow>
     \<exists>ev. executeWithRetry_loop proc a task maxRetries attempt lastError =
            (Inl (last (lastError # es)), updateMetrics 0 True b, ev)
          \<and> process_calls ev = k \<and> length es = k"
proof (induction k arbitrary: a attempt lastError es)
  case 0
  then show ?case by (simp add: loop_exhausted)
next
  case (Suc k)
  then have le: "attempt \<le> maxRetries" and k: "(attempt + 1) + k = maxRetries + 1" by simp_all
  obtain po a1 where p: "proc a task = (po, a1)" by (cases "proc a task") auto
  show ?case
  proof (cases po)
    case (Returned r d)
    with Suc.prems p show ?thesis by simp
  next
    case (Raised m)
    with Suc.prems p obtain es' where
      r: "raises_throughout proc a1 task k = Some (es', b)" and es: "es = Error m # es'"
      by (auto split: option.splits)
    from Suc.IH [OF r k, of "Error m"] obtain ev where
      "executeWithRetry_loop proc a1 task maxRetries (attempt + 1) (Error m) =
         (Inl (last (Error m # es')), updateMetrics 0 True b, ev)"
      "process_calls ev = k" "length es' = k"
      by blast
    with loop_raised [where proc = proc and a = a and task = task and lastError = lastError,
        OF le p [unfolded Raised]] es
    show ?thesis by (simp add: process_calls_append)
  next
    case (RaisedValue v)
    with Suc.prems p obtain es' where
      r: "raises_throughout proc a1 task k = Some (es', b)" and es: "es = ThrownValue v # es'"
      and nn: "\<not> nullish v"
      by (auto split: option.splits if_splits)
    from Suc.IH [OF r k, of "ThrownValue v"] obtain ev where
      "executeWithRetry_loop proc a1 task maxRetries (attempt + 1) (ThrownValue v) =
         (Inl (last (ThrownValue v # es')), updateMetrics 0 True b, ev)"
      "process_calls ev = k" "length es' = k"
      by blast
    with loop_raised_value [where proc = proc and a = a and task = task
        and lastError = lastError, OF le p [unfolded RaisedValue] nn] es
    show ?thesis by (simp add: process_calls_append)
  qed
qed

lemma loop_first_event:
  assumes "attempt \<le> maxRetries"
  shows "\<exists>ev. snd (snd (executeWithRetry_loop proc a task maxRetries attempt lastError)) =
            Process (name a) task # ev"
proof -
  obtain po a1 where p: "proc a task = (po, a1)" by (cases "proc a task") auto
  show ?thesis
  proof (cases po)
    case (Returned r d)
    from loop_returned [where proc = proc and a = a and task = task and lastError = lastError,
        OF assms p [unfolded Returned]]
    show ?thesis by simp
  next
    case (Raised m)
    from loop_raised [where proc = proc and a = a and task = task and lastError = lastError,
        OF assms p [unfolded Raised]]
    show ?thesis by (simp split: prod.splits)
  next
    case (RaisedValue v)
    show ?thesis
    proof (cases "nullish v")
      case True
      from loop_raised_nullish [where proc = proc and a = a and task = task
          and lastError = lastError, OF assms p [unfolded RaisedValue] True]
      show ?thesis by simp
    next
      case False
      from loop_raised_value [where proc = proc and a = a and task = task
          and lastError = lastError, OF assms p [unfolded RaisedValue] False]
      show ?thesis by (simp split: prod.splits)
    qed
  qed
qed

lemma step_retries_pos: "1 \<le> step_retries s"
  by (simp add: step_retries_def split: option.splits)

lemma executeWithRetry_first_event:
  "\<exists>ev. snd (snd (executeWithRetry proc a task (Some (step_retries s)))) =
          Process (name a) task # ev"
  using loop_first_event [of 1 "step_retries s" proc a task ThrownUndefined] step_retries_pos [of s]
  by (simp add: executeWithRetry_def)

lemma executeWithRetry_effects:
  assumes "executeWithRetry proc a task (Some (step_retries s)) = (out, a', ev)"
  shows "counter_writes ev = []" and "1 \<le> process_calls ev"
    and "process_calls ev \<le> step_retries s"
    and "out = Inl e \<Longrightarrow>
           process_calls ev = step_retries s \<or> (\<exists>v. nullish v \<and> e = message_TypeError v)"
    and "out = Inl e \<Longrightarrow> read_message e = None"
proof -
  note l = loop_effects [of proc a task "step_retries s" 1 ThrownUndefined out a' ev]
  from assms l show "counter_writes ev = []" by (simp add: executeWithRetry_def)
  from assms l step_retries_pos [of s] show "1 \<le> process_calls ev"
    by (simp add: executeWithRetry_def)
  from assms l show "process_calls ev \<le> step_retries s" by (simp add: executeWithRetry_def)
  from assms l show c: "process_calls ev = step_retries s \<or> (\<exists>v. nullish v \<and> e = message_TypeError v)"
    if "out = Inl e"
    using that by (simp add: executeWithRetry_def)
  from assms l step_retries_pos [of s] show "read_message e = None" if "out = Inl e"
    using that by (simp add: executeWithRetry_def)
qed

text \<open>The \<^verbatim>\<open>catch\<close> block of the retry loop reads \<^verbatim>\<open>error.message\<close> too: an agent
  that rejects with \<^verbatim>\<open>undefined\<close> at its first attempt of two is not called again, and
  \<open>executeWithRetry\<close> raises the \<^verbatim>\<open>TypeError\<close> of that read.\<close>

lemma executeWithRetry_rejected_undefined:
  "executeWithRetry scripted agentHnull taskX (Some 2) =
     (Inl (Error ''Cannot read properties of undefined (reading 'message')''),
      agentHnull\<lparr> own := [] \<rparr>, [Process ''Hnull'' taskX])"
  by (simp add: fixture_defs run_defs)

section \<open>Escalation\<close>

lemma handleEscalation_frame:
  "handleEscalation proc w s err prev orch = (out, orch', ev) \<Longrightarrow>
     activeTasksCount orch' = activeTasksCount orch
     \<and> maxConcurrentTasks orch' = maxConcurrentTasks orch
     \<and> workflows orch' = workflows orch
     \<and> counter_writes ev = []"
  by (auto simp: handleEscalation_def Let_def
      split: option.splits prod.splits process_outcome.splits if_splits)

lemma handleEscalation_calls:
  "handleEscalation proc w s err prev orch = (out, orch', ev) \<Longrightarrow> process_calls ev \<le> 1"
  by (auto simp: handleEscalation_def Let_def
      split: option.splits prod.splits process_outcome.splits if_splits)

lemma handleEscalation_returned:
  "handleEscalation proc w s err prev orch = (Inr out, orch', ev) \<Longrightarrow>
     \<not> wf_success out \<and> escalated out \<and> recorded out = prev"
  by (auto simp: handleEscalation_def Let_def
      split: option.splits prod.splits process_outcome.splits if_splits)

lemma handleEscalation_raised:
  "handleEscalation proc w s err prev orch = (Inl e, orch', ev) \<Longrightarrow>
     (\<exists>v. nullish v \<and> e = message_TypeError v)
     \<and> handler_rejects_nullish proc w s err prev orch"
  by (auto simp: handleEscalation_def handler_rejects_nullish_def read_message_def Let_def
      split: option.splits prod.splits process_outcome.splits if_splits)

text \<open>
  Unless the handler rejects with \<^verbatim>\<open>undefined\<close> or \<^verbatim>\<open>null\<close>, \<open>handleEscalation\<close>
  returns an object with \<^verbatim>\<open>success: false\<close> and \<^verbatim>\<open>escalated: true\<close>: the default one
  when the handler raises anything else, when none is named and when the one named is not
  registered.
\<close>

lemma handleEscalation_returns:
  assumes "\<not> handler_rejects_nullish proc w s err prev orch"
  shows "\<exists>out orch' ev. handleEscalation proc w s err prev orch = (Inr out, orch', ev)
           \<and> \<not> wf_success out \<and> escalated out \<and> recorded out = prev"
proof -
  obtain x orch' ev where h: "handleEscalation proc w s err prev orch = (x, orch', ev)"
    by (cases "handleEscalation proc w s err prev orch") auto
  show ?thesis
  proof (cases x)
    case (Inl e)
    with h handleEscalation_raised [of proc w s err prev orch e orch' ev] assms
    show ?thesis by simp
  next
    case (Inr out)
    with h handleEscalation_returned [of proc w s err prev orch out orch' ev]
    show ?thesis by simp
  qed
qed

lemma handleEscalation_default:
  "(\<forall>h a m a'. escalationHandler w = Some h \<and> h \<noteq> [] \<and> map_of (agents orch) h = Some a
         \<and> (proc a (escalation_task w s err prev) = (Raised m, a')
              \<or> (\<exists>v. proc a (escalation_task w s err prev) = (RaisedValue v, a') \<and> \<not> nullish v))
         \<longrightarrow>
         handleEscalation proc w s err prev orch =
           (Inr (EscalationDefault (step_name s) err prev),
            orch\<lparr> agents := AList.update h a' (agents orch) \<rparr>,
            [Process (name a) (escalation_task w s err prev)]))
   \<and> (escalationHandler w = None \<or> escalationHandler w = Some []
        \<or> (\<exists>h. escalationHandler w = Some h \<and> map_of (agents orch) h = None) \<longrightarrow>
         handleEscalation proc w s err prev orch =
           (Inr (EscalationDefault (step_name s) err prev), orch, []))"
  by (auto simp: handleEscalation_def read_message_def Let_def)

lemma handleEscalation_rejected:
  assumes "escalationHandler w = Some h" and "h \<noteq> []" and "map_of (agents orch) h = Some a"
    and "proc a (escalation_task w s err prev) = (RaisedValue v, a')" and "nullish v"
  shows "handleEscalation proc w s err prev orch =
           (Inl (message_TypeError v), orch\<lparr> agents := AList.update h a' (agents orch) \<rparr>,
            [Process (name a) (escalation_task w s err prev)])"
  using assms by (simp add: handleEscalation_def read_message_def Let_def)

text \<open>
  C8 does not hold of the code. \<open>handleEscalation\<close> returns an object with
  \<^verbatim>\<open>success: false\<close> and \<^verbatim>\<open>escalated: true\<close> in every case but one (lemmas
  \<open>handleEscalation_returns\<close>, \<open>handleEscalation_default\<close>): when the escalation
  handler rejects with \<^verbatim>\<open>undefined\<close> or \<^verbatim>\<open>null\<close>, the \<^verbatim>\<open>catch\<close> block, on its way
  to the default object, reads \<^verbatim>\<open>escalationError.message\<close> for the log entry, and that
  read raises a \<^verbatim>\<open>TypeError\<close> which nothing catches (lemma
  \<open>handleEscalation_rejected\<close>). Here the workflow \<^verbatim>\<open>gnull\<close> names the handler
  \<^verbatim>\<open>Hnull\<close>, registered, whose \<^verbatim>\<open>process\<close> rejects with \<^verbatim>\<open>undefined\<close>:
  \<open>handleEscalation\<close> raises, and no object is returned.
\<close>

theorem handleEscalation_rejection_raises:
  "escalationHandler wfGnull = Some ''Hnull''
   \<and> map_of (agents orch1) ''Hnull'' = Some agentHnull
   \<and> scripted agentHnull (escalation_task wfGnull stepG [(''success'', JBool False)] []) =
       (RaisedValue JUndefined, agentHnull\<lparr> own := [] \<rparr>)
   \<and> handleEscalation scripted wfGnull stepG [(''success'', JBool False)] [] orch1 =
       (Inl (Error ''Cannot read properties of undefined (reading 'message')''),
        orch1\<lparr> agents := AList.update ''Hnull'' (agentHnull\<lparr> own := [] \<rparr>) (agents orch1) \<rparr>,
        [Process ''Hnull'' (escalation_task wfGnull stepG [(''success'', JBool False)] [])])"
  by (simp add: fixture_defs run_defs)

section \<open>The step loop\<close>

lemma loop_body_unregistered:
  "map_of (agents orch) (agentName s) = None \<Longrightarrow>
     loop_body proc w s cur res orch =
       (Leave (Inl (Error (''Agent not found: '' @ agentName s))), orch, [])"
  by (simp add: loop_body_def)

lemma loop_body_raised:
  "map_of (agents orch) (agentName s) = Some a \<Longrightarrow>
   executeWithRetry proc a (step_task cur s) (Some (step_retries s)) = (Inl e, a', ev) \<Longrightarrow>
     loop_body proc w s cur res orch =
       (Leave (Inl e), orch\<lparr> agents := AList.update (agentName s) a' (agents orch) \<rparr>, ev)"
  by (simp add: loop_body_def)

lemma loop_body_escalates:
  "map_of (agents orch) (agentName s) = Some a \<Longrightarrow>
   executeWithRetry proc a (step_task cur s) (Some (step_retries s)) = (Inr r, a', ev) \<Longrightarrow>
   \<not> truthy (js_get r ''success'') \<Longrightarrow> escalateOnFailure s \<Longrightarrow>
     loop_body proc w s cur res orch =
       (case handleEscalation proc w s r
               (res @ [\<lparr> entry_step = step_name s, entry_agent = agentName s,
                          entry_result = r \<rparr>])
               (orch\<lparr> agents := AList.update (agentName s) a' (agents orch) \<rparr>) of
          (out, orch'', ev') \<Rightarrow> (Leave out, orch'', ev @ ev'))"
  by (simp add: loop_body_def Let_def)

lemma loop_body_continues:
  "map_of (agents orch) (agentName s) = Some a \<Longrightarrow>
   executeWithRetry proc a (step_task cur s) (Some (step_retries s)) = (Inr r, a', ev) \<Longrightarrow>
   \<not> (\<not> truthy (js_get r ''success'') \<and> escalateOnFailure s) \<Longrightarrow>
     loop_body proc w s cur res orch =
       (Continue
          (if truthy (js_get r ''data'') then js_set ''data'' (js_get r ''data'') cur else cur)
          (res @ [\<lparr> entry_step = step_name s, entry_agent = agentName s, entry_result = r \<rparr>]),
        orch\<lparr> agents := AList.update (agentName s) a' (agents orch) \<rparr>, ev)"
  by (auto simp: loop_body_def Let_def)

text \<open>The four ways an iteration can go.\<close>

lemma loop_body_cases:
  obtains
    (unregistered) "map_of (agents orch) (agentName s) = None"
  | (raised) a e a' ev where "map_of (agents orch) (agentName s) = Some a"
      "executeWithRetry proc a (step_task cur s) (Some (step_retries s)) = (Inl e, a', ev)"
  | (escalates) a r a' ev where "map_of (agents orch) (agentName s) = Some a"
      "executeWithRetry proc a (step_task cur s) (Some (step_retries s)) = (Inr r, a', ev)"
      "\<not> truthy (js_get r ''success'')" "escalateOnFailure s"
  | (continues) a r a' ev where "map_of (agents orch) (agentName s) = Some a"
      "executeWithRetry proc a (step_task cur s) (Some (step_retries s)) = (Inr r, a', ev)"
      "\<not> (\<not> truthy (js_get r ''success'') \<and> escalateOnFailure s)"
proof (cases "map_of (agents orch) (agentName s)")
  case None
  then show ?thesis by (rule unregistered)
next
  case (Some a)
  obtain x a' ev where e:
    "executeWithRetry proc a (step_task cur s) (Some (step_retries s)) = (x, a', ev)"
    by (cases "executeWithRetry proc a (step_task cur s) (Some (step_retries s))") auto
  show ?thesis
  proof (cases x)
    case (Inl err)
    with Some e show ?thesis by (auto intro: raised)
  next
    case (Inr r)
    with Some e show ?thesis
      by (cases "\<not> truthy (js_get r ''success'') \<and> escalateOnFailure s")
         (auto intro: escalates continues)
  qed
qed

text \<open>An iteration leaves the counter, its bound and the workflows alone and assigns the
  counter nowhere; what it raises can be read by the \<^verbatim>\<open>catch\<close> around the loop; an
  object it returns is an escalation's.\<close>

lemma loop_body_frame:
  assumes "loop_body proc w s cur res orch = (it, orch', ev)"
  shows "activeTasksCount orch' = activeTasksCount orch
     \<and> maxConcurrentTasks orch' = maxConcurrentTasks orch
     \<and> workflows orch' = workflows orch
     \<and> counter_writes ev = []
     \<and> (\<forall>e. it = Leave (Inl e) \<longrightarrow> read_message e = None)
     \<and> (\<forall>out. it = Leave (Inr out) \<longrightarrow> escalated out \<and> \<not> wf_success out)"
proof (cases rule: loop_body_cases [where orch = orch and s = s and proc = proc and cur = cur])
  case unregistered
  with assms show ?thesis by (auto simp: loop_body_unregistered)
next
  case (raised a e a' ev1)
  from assms loop_body_raised [OF raised, of w res] executeWithRetry_effects [OF raised(2)]
  show ?thesis by auto
next
  case (escalates a r a' ev1)
  let ?o = "orch\<lparr> agents := AList.update (agentName s) a' (agents orch) \<rparr>"
  let ?rs = "res @ [\<lparr> entry_step = step_name s, entry_agent = agentName s, entry_result = r \<rparr>]"
  obtain x o2 ev2 where h: "handleEscalation proc w s r ?rs ?o = (x, o2, ev2)"
    by (cases "handleEscalation proc w s r ?rs ?o") auto
  from assms loop_body_escalates [OF escalates, of w res] h
  have it: "it = Leave x" "orch' = o2" "ev = ev1 @ ev2" by simp_all
  from handleEscalation_frame [OF h] executeWithRetry_effects(1) [OF escalates(2)] it
  have f: "activeTasksCount orch' = activeTasksCount orch"
    "maxConcurrentTasks orch' = maxConcurrentTasks orch" "workflows orch' = workflows orch"
    "counter_writes ev = []"
    by (simp_all add: counter_writes_append)
  show ?thesis
  proof (cases x)
    case (Inl e)
    with h handleEscalation_raised [of proc w s r ?rs ?o e o2 ev2] it f show ?thesis by auto
  next
    case (Inr out)
    with h handleEscalation_returned [of proc w s r ?rs ?o out o2 ev2] it f show ?thesis by auto
  qed
next
  case (continues a r a' ev1)
  from assms loop_body_continues [OF continues, of w res] executeWithRetry_effects(1) [OF continues(2)]
  show ?thesis by auto
qed

lemma loop_body_continue_results:
  assumes "loop_body proc w s cur res orch = (Continue c r, o1, ev)"
  shows "\<exists>e. r = res @ [e]"
proof (cases rule: loop_body_cases [where orch = orch and s = s and proc = proc and cur = cur])
  case unregistered
  with assms show ?thesis by (simp add: loop_body_unregistered)
next
  case (raised a e a' ev1)
  with assms show ?thesis by (auto simp: loop_body_raised)
next
  case (escalates a r a' ev1)
  from assms loop_body_escalates [OF escalates, of w res] show ?thesis
    by (auto split: prod.splits)
next
  case (continues a r a' ev1)
  from assms loop_body_continues [OF continues, of w res] show ?thesis by auto
qed

lemma run_steps_Cons_leave:
  "loop_body proc w s cur res orch = (Leave out, o1, ev) \<Longrightarrow>
     run_steps proc wn w (s # ss) cur res orch = (out, o1, ev)"
  by simp

lemma run_steps_Cons_continue:
  "loop_body proc w s cur res orch = (Continue c r, o1, ev) \<Longrightarrow>
     run_steps proc wn w (s # ss) cur res orch =
       (case run_steps proc wn w ss c r o1 of (out, o2, ev') \<Rightarrow> (out, o2, ev @ ev'))"
  by simp

lemma loop_state_Cons_leave:
  "loop_body proc w s cur res orch = (Leave out, o1, ev) \<Longrightarrow>
     loop_state proc w (s # ss) cur res orch = None"
  by simp

lemma loop_state_Cons_continue:
  "loop_body proc w s cur res orch = (Continue c r, o1, ev) \<Longrightarrow>
     loop_state proc w (s # ss) cur res orch =
       (case loop_state proc w ss c r o1 of
          None \<Rightarrow> None
        | Some (c', r', o2, ev') \<Rightarrow> Some (c', r', o2, ev @ ev'))"
  by simp

lemma run_steps_frame:
  "run_steps proc wn w ss cur res orch = (out, orch', ev) \<Longrightarrow>
     activeTasksCount orch' = activeTasksCount orch
     \<and> maxConcurrentTasks orch' = maxConcurrentTasks orch
     \<and> workflows orch' = workflows orch
     \<and> counter_writes ev = []
     \<and> rethrown out = out"
proof (induction ss arbitrary: cur res orch out orch' ev)
  case Nil
  then show ?case by (auto simp: rethrown_def)
next
  case (Cons s ss)
  obtain it o1 ev1 where b: "loop_body proc w s cur res orch = (it, o1, ev1)"
    by (cases "loop_body proc w s cur res orch") auto
  note f = loop_body_frame [OF b]
  show ?case
  proof (cases it)
    case (Leave x)
    with Cons.prems b have x: "out = x" "orch' = o1" "ev = ev1"
      by (simp_all add: run_steps_Cons_leave del: run_steps.simps)
    with f Leave show ?thesis by (cases x) (auto simp: rethrown_def)
  next
    case (Continue c r)
    obtain out2 o2 ev2 where r2: "run_steps proc wn w ss c r o1 = (out2, o2, ev2)"
      by (cases "run_steps proc wn w ss c r o1") auto
    from Cons.prems b Continue r2 have "orch' = o2" "out = out2" "ev = ev1 @ ev2"
      by (simp_all add: run_steps_Cons_continue del: run_steps.simps)
    with Cons.IH [OF r2] f show ?thesis by (simp add: counter_writes_append)
  qed
qed

lemma run_steps_append:
  "loop_state proc w pre cur res orch = Some (c, r, o1, ev) \<Longrightarrow>
     run_steps proc wn w (pre @ post) cur res orch =
       (case run_steps proc wn w post c r o1 of (out, o2, ev') \<Rightarrow> (out, o2, ev @ ev'))"
proof (induction pre arbitrary: cur res orch ev)
  case Nil
  then show ?case by (simp split: prod.splits)
next
  case (Cons s pre)
  obtain it o2 ev2 where b: "loop_body proc w s cur res orch = (it, o2, ev2)"
    by (cases "loop_body proc w s cur res orch") auto
  show ?case
  proof (cases it)
    case (Leave x)
    with Cons.prems b show ?thesis by (simp add: loop_state_Cons_leave del: loop_state.simps)
  next
    case (Continue c2 r2)
    with Cons.prems b obtain ev3 where
      l: "loop_state proc w pre c2 r2 o2 = Some (c, r, o1, ev3)" and e: "ev = ev2 @ ev3"
      by (auto simp: loop_state_Cons_continue simp del: loop_state.simps split: option.splits)
    from Cons.IH [OF l] b Continue e show ?thesis
      by (simp add: run_steps_Cons_continue del: run_steps.simps split: prod.splits)
  qed
qed

lemma loop_state_append:
  "loop_state proc w (xs @ ys) cur res orch =
     (case loop_state proc w xs cur res orch of
        None \<Rightarrow> None
      | Some (c, r, o1, ev) \<Rightarrow>
          (case loop_state proc w ys c r o1 of
             None \<Rightarrow> None
           | Some (c', r', o2, ev') \<Rightarrow> Some (c', r', o2, ev @ ev')))"
proof (induction xs arbitrary: cur res orch)
  case Nil
  then show ?case by (simp split: option.splits)
next
  case (Cons s xs)
  obtain it o2 ev2 where b: "loop_body proc w s cur res orch = (it, o2, ev2)"
    by (cases "loop_body proc w s cur res orch") auto
  show ?case
  proof (cases it)
    case (Leave x)
    with b show ?thesis by (simp add: loop_state_Cons_leave del: loop_state.simps)
  next
    case (Continue c2 r2)
    with b Cons.IH [of c2 r2 o2] show ?thesis
      by (simp add: loop_state_Cons_continue del: loop_state.simps split: option.splits)
  qed
qed

lemma loop_state_extends:
  "loop_state proc w xs cur res orch = Some (c, r, o1, ev) \<Longrightarrow>
     \<exists>ext. r = res @ ext \<and> length ext = length xs"
proof (induction xs arbitrary: cur res orch ev)
  case Nil
  then show ?case by simp
next
  case (Cons s xs)
  obtain it o2 ev2 where b: "loop_body proc w s cur res orch = (it, o2, ev2)"
    by (cases "loop_body proc w s cur res orch") auto
  show ?case
  proof (cases it)
    case (Leave x)
    with Cons.prems b show ?thesis by (simp add: loop_state_Cons_leave del: loop_state.simps)
  next
    case (Continue c2 r2)
    with Cons.prems b obtain ev3 where
      l: "loop_state proc w xs c2 r2 o2 = Some (c, r, o1, ev3)"
      by (auto simp: loop_state_Cons_continue simp del: loop_state.simps split: option.splits)
    from Cons.IH [OF l] loop_body_continue_results [OF b [unfolded Continue]]
    show ?thesis by auto
  qed
qed

lemma run_steps_completed:
  "run_steps proc wn w ss cur res orch = (Inr (Completed x rs), orch', ev) \<Longrightarrow>
     x = wn \<and> (\<exists>c. loop_state proc w ss cur res orch = Some (c, rs, orch', ev))"
proof (induction ss arbitrary: cur res orch ev)
  case Nil
  then show ?case by simp
next
  case (Cons s ss)
  obtain it o2 ev2 where b: "loop_body proc w s cur res orch = (it, o2, ev2)"
    by (cases "loop_body proc w s cur res orch") auto
  show ?case
  proof (cases it)
    case (Leave out)
    with Cons.prems b
    have "loop_body proc w s cur res orch = (Leave (Inr (Completed x rs)), o2, ev2)"
      by (simp add: run_steps_Cons_leave del: run_steps.simps)
    from loop_body_frame [OF this] show ?thesis by simp
  next
    case (Continue c2 r2)
    obtain out3 o3 ev3 where r3: "run_steps proc wn w ss c2 r2 o2 = (out3, o3, ev3)"
      by (cases "run_steps proc wn w ss c2 r2 o2") auto
    with Cons.prems b Continue have "out3 = Inr (Completed x rs)" "o3 = orch'" "ev = ev2 @ ev3"
      by (simp_all add: run_steps_Cons_continue del: run_steps.simps)
    with Cons.IH [of c2 r2 o2 ev3] r3 b Continue show ?thesis
      by (auto simp: loop_state_Cons_continue simp del: loop_state.simps)
  qed
qed

lemma loop_body_first_event:
  assumes "map_of (agents orch) (agentName s) = Some a"
  shows "\<exists>ev. snd (snd (loop_body proc w s cur res orch)) =
           Process (name a) (step_task cur s) # ev"
proof -
  obtain x a' ev1 where e:
    "executeWithRetry proc a (step_task cur s) (Some (step_retries s)) = (x, a', ev1)"
    by (cases "executeWithRetry proc a (step_task cur s) (Some (step_retries s))") auto
  from executeWithRetry_first_event [of proc a "step_task cur s" s] e
  obtain ev2 where ev1: "ev1 = Process (name a) (step_task cur s) # ev2" by auto
  show ?thesis
  proof (cases rule: loop_body_cases [where orch = orch and s = s and proc = proc and cur = cur])
    case unregistered
    with assms show ?thesis by simp
  next
    case (raised b e' b' ev')
    with assms e ev1 show ?thesis by (auto simp: loop_body_raised)
  next
    case (escalates b r b' ev')
    with assms e ev1 loop_body_escalates [OF escalates, of w res] show ?thesis
      by (auto split: prod.splits)
  next
    case (continues b r b' ev')
    with assms e ev1 loop_body_continues [OF continues, of w res] show ?thesis
      by auto
  qed
qed

lemma run_steps_first_event:
  assumes "map_of (agents orch) (agentName s) = Some a"
  shows "\<exists>ev. snd (snd (run_steps proc wn w (s # rest) cur res orch)) =
           Process (name a) (step_task cur s) # ev"
proof -
  obtain it o1 ev1 where b: "loop_body proc w s cur res orch = (it, o1, ev1)"
    by (cases "loop_body proc w s cur res orch") auto
  from loop_body_first_event [OF assms, of proc w cur res] b
  obtain ev2 where ev1: "ev1 = Process (name a) (step_task cur s) # ev2" by auto
  show ?thesis
  proof (cases it)
    case (Leave out)
    with b ev1 show ?thesis by (simp add: run_steps_Cons_leave del: run_steps.simps)
  next
    case (Continue c r)
    with b ev1 show ?thesis
      by (simp add: run_steps_Cons_continue del: run_steps.simps split: prod.splits)
  qed
qed

section \<open>Admission and the counter of executions in flight\<close>

lemma executeWorkflow_admitted:
  "map_of (workflows orch) wn = Some w \<Longrightarrow> activeTasksCount orch < maxConcurrentTasks orch \<Longrightarrow>
     executeWorkflow proc wn t orch =
       (case run_steps proc wn w (steps w) t []
               (orch\<lparr> activeTasksCount := activeTasksCount orch + 1 \<rparr>) of
          (out, orch', ev) \<Rightarrow>
            (rethrown out, orch'\<lparr> activeTasksCount := activeTasksCount orch' - 1 \<rparr>,
             ActiveTasks (activeTasksCount orch + 1) # ev @
             [ActiveTasks (activeTasksCount orch' - 1)]))"
  by (simp add: executeWorkflow_def Let_def)

lemma executeWorkflow_run:
  assumes "map_of (workflows orch) wn = Some w"
    and "activeTasksCount orch < maxConcurrentTasks orch"
    and "run_steps proc wn w (steps w) t []
           (orch\<lparr> activeTasksCount := activeTasksCount orch + 1 \<rparr>) = (out, orch', ev)"
  shows "executeWorkflow proc wn t orch =
           (out, orch'\<lparr> activeTasksCount := activeTasksCount orch \<rparr>,
            ActiveTasks (activeTasksCount orch + 1) # ev @ [ActiveTasks (activeTasksCount orch)])"
    and "activeTasksCount orch' = activeTasksCount orch + 1"
    and "counter_writes ev = []"
    and "workflows orch' = workflows orch"
    and "maxConcurrentTasks orch' = maxConcurrentTasks orch"
proof -
  note f = run_steps_frame [OF assms(3)]
  from f show "activeTasksCount orch' = activeTasksCount orch + 1" by simp
  from f show "counter_writes ev = []" by simp
  from f show "workflows orch' = workflows orch" by simp
  from f show "maxConcurrentTasks orch' = maxConcurrentTasks orch" by simp
  from f executeWorkflow_admitted [OF assms(1,2), of proc t] assms(3)
  show "executeWorkflow proc wn t orch =
           (out, orch'\<lparr> activeTasksCount := activeTasksCount orch \<rparr>,
            ActiveTasks (activeTasksCount orch + 1) # ev @ [ActiveTasks (activeTasksCount orch)])"
    by simp
qed

text \<open>
  C6, as the code has it. The workflow is looked up first: a call that names no registered
  workflow fails with the not-found error, whatever the counter, and never assigns it.
  For a registered workflow: with \<open>activeTasksCount \<ge> maxConcurrentTasks\<close> (10 in a new
  orchestrator) the call fails with the capacity error, the orchestrator unchanged,
  nothing run and the counter not assigned; otherwise the counter is assigned exactly
  twice, first its value plus one, before anything else, and last its value of before,
  after everything else, whether the loop returned, raised or escalated. In between the
  loop runs with the counter one higher and leaves it so: while it runs, with the counter
  one below the bound at entry, a further call for the workflow fails with the capacity
  error. In every case the counter ends at the value it had, and no value assigned to it
  is negative when it was not.
\<close>

theorem executeWorkflow_counter:
  "(map_of (workflows orch) wn = None \<longrightarrow>
      executeWorkflow proc wn t orch = (Inl (Error (''Workflow not found: '' @ wn)), orch, []))
   \<and> (map_of (workflows orch) wn \<noteq> None \<and> maxConcurrentTasks orch \<le> activeTasksCount orch \<longrightarrow>
      executeWorkflow proc wn t orch =
        (Inl (Error ''Maximum concurrent tasks reached''), orch, []))
   \<and> (\<forall>w. map_of (workflows orch) wn = Some w
          \<and> activeTasksCount orch < maxConcurrentTasks orch \<longrightarrow>
        (\<exists>out orch' ev.
           run_steps proc wn w (steps w) t []
             (orch\<lparr> activeTasksCount := activeTasksCount orch + 1 \<rparr>) = (out, orch', ev)
           \<and> activeTasksCount orch' = activeTasksCount orch + 1
           \<and> counter_writes ev = []
           \<and> executeWorkflow proc wn t orch =
               (out, orch'\<lparr> activeTasksCount := activeTasksCount orch \<rparr>,
                ActiveTasks (activeTasksCount orch + 1) # ev @
                [ActiveTasks (activeTasksCount orch)])
           \<and> (maxConcurrentTasks orch \<le> activeTasksCount orch + 1 \<longrightarrow>
                (\<forall>t2. executeWorkflow proc wn t2 orch' =
                   (Inl (Error ''Maximum concurrent tasks reached''), orch', [])))))
   \<and> (map_of (workflows orch) wn \<noteq> None \<and> activeTasksCount orch < maxConcurrentTasks orch \<longrightarrow>
        counter_writes (snd (snd (executeWorkflow proc wn t orch))) =
          [activeTasksCount orch + 1, activeTasksCount orch])
   \<and> activeTasksCount (fst (snd (executeWorkflow proc wn t orch))) = activeTasksCount orch
   \<and> (0 \<le> activeTasksCount orch \<longrightarrow>
        0 \<le> activeTasksCount (fst (snd (executeWorkflow proc wn t orch)))
        \<and> (\<forall>n \<in> set (counter_writes (snd (snd (executeWorkflow proc wn t orch)))). 0 \<le> n))
   \<and> maxConcurrentTasks (new_orchestrator :: 'x orchestrator) = 10
   \<and> activeTasksCount (new_orchestrator :: 'x orchestrator) = 0"
proof -
  let ?E = "executeWorkflow proc wn t orch"
  let ?c = "activeTasksCount orch"
  have adm: "\<exists>out orch' ev.
           run_steps proc wn w (steps w) t [] (orch\<lparr> activeTasksCount := ?c + 1 \<rparr>) =
             (out, orch', ev)
           \<and> activeTasksCount orch' = ?c + 1
           \<and> counter_writes ev = []
           \<and> ?E = (out, orch'\<lparr> activeTasksCount := ?c \<rparr>,
                   ActiveTasks (?c + 1) # ev @ [ActiveTasks ?c])
           \<and> (maxConcurrentTasks orch \<le> ?c + 1 \<longrightarrow>
                (\<forall>t2. executeWorkflow proc wn t2 orch' =
                   (Inl (Error ''Maximum concurrent tasks reached''), orch', [])))"
    if h: "map_of (workflows orch) wn = Some w" "?c < maxConcurrentTasks orch"
    for w
  proof -
    obtain out orch' ev where r: "run_steps proc wn w (steps w) t []
             (orch\<lparr> activeTasksCount := ?c + 1 \<rparr>) = (out, orch', ev)"
      by (cases "run_steps proc wn w (steps w) t [] (orch\<lparr> activeTasksCount := ?c + 1 \<rparr>)")
         auto
    note e = executeWorkflow_run [OF h r]
    have "executeWorkflow proc wn t2 orch' =
            (Inl (Error ''Maximum concurrent tasks reached''), orch', [])"
      if "maxConcurrentTasks orch \<le> ?c + 1" for t2
      using that e(2,4,5) h(1) by (simp add: executeWorkflow_def)
    with r e(1,2,3) show ?thesis by blast
  qed
  have writes: "counter_writes (snd (snd ?E)) = [?c + 1, ?c]"
    if h: "map_of (workflows orch) wn \<noteq> None" "?c < maxConcurrentTasks orch"
  proof -
    from h(1) obtain w where w: "map_of (workflows orch) wn = Some w" by auto
    from adm [OF w h(2)] show ?thesis by (auto simp: counter_writes_append)
  qed
  have same: "activeTasksCount (fst (snd ?E)) = ?c"
    and nonneg: "0 \<le> ?c \<Longrightarrow> \<forall>n \<in> set (counter_writes (snd (snd ?E))). 0 \<le> n"
  proof -
    show "activeTasksCount (fst (snd ?E)) = ?c"
    proof (cases "map_of (workflows orch) wn")
      case None
      then show ?thesis by (simp add: executeWorkflow_def)
    next
      case (Some w)
      show ?thesis
      proof (cases "?c < maxConcurrentTasks orch")
        case True
        from adm [OF Some True] show ?thesis by auto
      next
        case False
        with Some show ?thesis by (simp add: executeWorkflow_def)
      qed
    qed
    show "\<forall>n \<in> set (counter_writes (snd (snd ?E))). 0 \<le> n" if "0 \<le> ?c"
    proof (cases "map_of (workflows orch) wn \<noteq> None \<and> ?c < maxConcurrentTasks orch")
      case True
      with writes that show ?thesis by simp
    next
      case False
      then show ?thesis by (cases "map_of (workflows orch) wn") (simp_all add: executeWorkflow_def)
    qed
  qed
  have a: "map_of (workflows orch) wn = None \<longrightarrow>
      ?E = (Inl (Error (''Workflow not found: '' @ wn)), orch, [])"
    by (simp add: executeWorkflow_def)
  have b: "map_of (workflows orch) wn \<noteq> None \<and> maxConcurrentTasks orch \<le> ?c \<longrightarrow>
      ?E = (Inl (Error ''Maximum concurrent tasks reached''), orch, [])"
    by (auto simp: executeWorkflow_def)
  have d: "maxConcurrentTasks (new_orchestrator :: 'x orchestrator) = 10"
    "activeTasksCount (new_orchestrator :: 'x orchestrator) = 0"
    by (simp_all add: new_orchestrator_def)
  from a b adm writes same nonneg d show ?thesis by (intro conjI allI impI) (simp_all)
qed

theorem executeWorkflow_counter_witness:
  "map_of (workflows orch0) ''nope'' = None
   \<and> executeWorkflow scripted ''nope'' taskX orch0 =
       (Inl (Error (''Workflow not found: '' @ ''nope'')), orch0, [])
   \<and> map_of (workflows orchFull) ''ab'' \<noteq> None
   \<and> maxConcurrentTasks orchFull \<le> activeTasksCount orchFull
   \<and> executeWorkflow scripted ''ab'' taskX orchFull =
       (Inl (Error ''Maximum concurrent tasks reached''), orchFull, [])
   \<and> map_of (workflows orch0) ''ab'' = Some wfAB
   \<and> activeTasksCount orch0 < maxConcurrentTasks orch0
   \<and> (\<exists>out orch' ev.
         run_steps scripted ''ab'' wfAB (steps wfAB) taskX []
           (orch0\<lparr> activeTasksCount := activeTasksCount orch0 + 1 \<rparr>) = (out, orch', ev)
         \<and> activeTasksCount orch' = activeTasksCount orch0 + 1
         \<and> counter_writes ev = []
         \<and> executeWorkflow scripted ''ab'' taskX orch0 =
             (out, orch'\<lparr> activeTasksCount := activeTasksCount orch0 \<rparr>,
              ActiveTasks (activeTasksCount orch0 + 1) # ev @
              [ActiveTasks (activeTasksCount orch0)]))
   \<and> map_of (workflows (orch0\<lparr> activeTasksCount := 9 \<rparr>)) ''ab'' = Some wfAB
   \<and> activeTasksCount (orch0\<lparr> activeTasksCount := 9 \<rparr>) <
       maxConcurrentTasks (orch0\<lparr> activeTasksCount := 9 \<rparr>)
   \<and> maxConcurrentTasks (orch0\<lparr> activeTasksCount := 9 \<rparr>) \<le>
       activeTasksCount (orch0\<lparr> activeTasksCount := 9 \<rparr>) + 1
   \<and> (\<exists>out orch' ev.
         run_steps scripted ''ab'' wfAB (steps wfAB) taskX []
           (orch0\<lparr> activeTasksCount := 10 \<rparr>) = (out, orch', ev)
         \<and> activeTasksCount orch' = 10
         \<and> executeWorkflow scripted ''ab'' taskX orch' =
             (Inl (Error ''Maximum concurrent tasks reached''), orch', []))
   \<and> 0 \<le> activeTasksCount orch0
   \<and> counter_writes (snd (snd (executeWorkflow scripted ''ab'' taskX orch0))) = [1, 0]
   \<and> counter_writes (snd (snd (executeWorkflow scripted ''r2'' taskX orch0))) = [1, 0]
   \<and> counter_writes (snd (snd (executeWorkflow scripted ''fgb'' taskX orch0))) = [1, 0]
   \<and> activeTasksCount (fst (snd (executeWorkflow scripted ''ab'' taskX orch0))) = 0
   \<and> activeTasksCount (fst (snd (executeWorkflow scripted ''r2'' taskX orch0))) = 0
   \<and> activeTasksCount (fst (snd (executeWorkflow scripted ''fgb'' taskX orch0))) = 0"
proof -
  let ?o9 = "orch0\<lparr> activeTasksCount := 9 \<rparr>"
  have h: "map_of (workflows orch0) ''nope'' = None" "map_of (workflows orchFull) ''ab'' \<noteq> None"
    "maxConcurrentTasks orchFull \<le> activeTasksCount orchFull"
    "map_of (workflows orch0) ''ab'' = Some wfAB"
    "activeTasksCount orch0 < maxConcurrentTasks orch0" "0 \<le> activeTasksCount orch0"
    by (simp_all add: orch0_def orchFull_def)
  have z: "activeTasksCount orch0 = 0" "map_of (workflows orch0) ''ab'' \<noteq> None"
    "map_of (workflows orch0) ''r2'' \<noteq> None" "map_of (workflows orch0) ''fgb'' \<noteq> None"
    by (simp_all add: orch0_def)
  have g: "map_of (workflows ?o9) ''ab'' = Some wfAB"
    "activeTasksCount ?o9 < maxConcurrentTasks ?o9"
    "maxConcurrentTasks ?o9 \<le> activeTasksCount ?o9 + 1"
    by (simp_all add: orch0_def)
  have g9: "?o9\<lparr> activeTasksCount := activeTasksCount ?o9 + 1 \<rparr> =
              orch0\<lparr> activeTasksCount := 10 \<rparr>" "activeTasksCount ?o9 + 1 = 10"
    by simp_all
  note c1 = executeWorkflow_counter [where proc = scripted and wn = "''nope''" and t = taskX
      and orch = orch0]
  note c2 = executeWorkflow_counter [where proc = scripted and wn = "''ab''" and t = taskX
      and orch = orchFull]
  note c3 = executeWorkflow_counter [where proc = scripted and wn = "''ab''" and t = taskX
      and orch = orch0]
  note c4 = executeWorkflow_counter [where proc = scripted and wn = "''r2''" and t = taskX
      and orch = orch0]
  note c5 = executeWorkflow_counter [where proc = scripted and wn = "''fgb''" and t = taskX
      and orch = orch0]
  note c6 = executeWorkflow_counter [where proc = scripted and wn = "''ab''" and t = taskX
      and orch = ?o9]
  from c1 h have a: "executeWorkflow scripted ''nope'' taskX orch0 =
       (Inl (Error (''Workflow not found: '' @ ''nope'')), orch0, [])" by blast
  from c2 h have b: "executeWorkflow scripted ''ab'' taskX orchFull =
       (Inl (Error ''Maximum concurrent tasks reached''), orchFull, [])" by blast
  from c3 h have c: "\<exists>out orch' ev.
         run_steps scripted ''ab'' wfAB (steps wfAB) taskX []
           (orch0\<lparr> activeTasksCount := activeTasksCount orch0 + 1 \<rparr>) = (out, orch', ev)
         \<and> activeTasksCount orch' = activeTasksCount orch0 + 1
         \<and> counter_writes ev = []
         \<and> executeWorkflow scripted ''ab'' taskX orch0 =
             (out, orch'\<lparr> activeTasksCount := activeTasksCount orch0 \<rparr>,
              ActiveTasks (activeTasksCount orch0 + 1) # ev @
              [ActiveTasks (activeTasksCount orch0)])" by blast
  from c6 g have "\<exists>out orch' ev.
         run_steps scripted ''ab'' wfAB (steps wfAB) taskX []
           (?o9\<lparr> activeTasksCount := activeTasksCount ?o9 + 1 \<rparr>) = (out, orch', ev)
         \<and> activeTasksCount orch' = activeTasksCount ?o9 + 1
         \<and> executeWorkflow scripted ''ab'' taskX orch' =
             (Inl (Error ''Maximum concurrent tasks reached''), orch', [])" by blast
  then have n: "\<exists>out orch' ev.
         run_steps scripted ''ab'' wfAB (steps wfAB) taskX []
           (orch0\<lparr> activeTasksCount := 10 \<rparr>) = (out, orch', ev)
         \<and> activeTasksCount orch' = 10
         \<and> executeWorkflow scripted ''ab'' taskX orch' =
             (Inl (Error ''Maximum concurrent tasks reached''), orch', [])"
    by simp
  from c3 h z have "counter_writes (snd (snd (executeWorkflow scripted ''ab'' taskX orch0))) =
      [activeTasksCount orch0 + 1, activeTasksCount orch0]"
    by blast
  with z have w1:
    "counter_writes (snd (snd (executeWorkflow scripted ''ab'' taskX orch0))) = [1, 0]"
    by simp
  from c4 h z have "counter_writes (snd (snd (executeWorkflow scripted ''r2'' taskX orch0))) =
      [activeTasksCount orch0 + 1, activeTasksCount orch0]"
    by blast
  with z have w2:
    "counter_writes (snd (snd (executeWorkflow scripted ''r2'' taskX orch0))) = [1, 0]"
    by simp
  from c5 h z have "counter_writes (snd (snd (executeWorkflow scripted ''fgb'' taskX orch0))) =
      [activeTasksCount orch0 + 1, activeTasksCount orch0]"
    by blast
  with z have w3:
    "counter_writes (snd (snd (executeWorkflow scripted ''fgb'' taskX orch0))) = [1, 0]"
    by simp
  from c3 have "activeTasksCount (fst (snd (executeWorkflow scripted ''ab'' taskX orch0))) =
      activeTasksCount orch0"
    by blast
  with z have d: "activeTasksCount (fst (snd (executeWorkflow scripted ''ab'' taskX orch0))) = 0"
    by simp
  from c4 have "activeTasksCount (fst (snd (executeWorkflow scripted ''r2'' taskX orch0))) =
      activeTasksCount orch0"
    by blast
  with z have e: "activeTasksCount (fst (snd (executeWorkflow scripted ''r2'' taskX orch0))) = 0"
    by simp
  from c5 have "activeTasksCount (fst (snd (executeWorkflow scripted ''fgb'' taskX orch0))) =
      activeTasksCount orch0"
    by blast
  with z have f: "activeTasksCount (fst (snd (executeWorkflow scripted ''fgb'' taskX orch0))) = 0"
    by simp
  from h g a b c n w1 w2 w3 d e f show ?thesis by blast
qed

text \<open>At capacity, a call for an unregistered workflow fails with the not-found error,
  not the capacity error; below capacity such a call does not assign the counter.\<close>

theorem capacity_counterexample:
  "maxConcurrentTasks orchFull \<le> activeTasksCount orchFull
   \<and> executeWorkflow scripted ''nope'' taskX orchFull =
       (Inl (Error ''Workflow not found: nope''), orchFull, [])
   \<and> activeTasksCount orch0 < maxConcurrentTasks orch0
   \<and> executeWorkflow scripted ''nope'' taskX orch0 =
       (Inl (Error ''Workflow not found: nope''), orch0, [])"
  by (simp add: fixture_defs run_defs)

section \<open>Steps that raise, fail or succeed\<close>

text \<open>An admitted execution whose loop has gone through the steps \<open>pre\<close>: the call does
  what the rest of the loop does from there, between the two assignments of the
  counter.\<close>

lemma executeWorkflow_at_step:
  assumes wfreg: "map_of (workflows orig) wn = Some w"
    and cap: "activeTasksCount orig < maxConcurrentTasks orig"
    and stp: "steps w = pre @ rest"
    and reach: "loop_state proc w pre t []
                  (orig\<lparr> activeTasksCount := activeTasksCount orig + 1 \<rparr>) =
                Some (cur, res, orch, ev0)"
  shows "executeWorkflow proc wn t orig =
           (case run_steps proc wn w rest cur res orch of
              (out, o2, ev') \<Rightarrow>
                (out, o2\<lparr> activeTasksCount := activeTasksCount orig \<rparr>,
                 ActiveTasks (activeTasksCount orig + 1) # ev0 @ ev' @
                 [ActiveTasks (activeTasksCount orig)]))"
    and "length res = length pre"
proof -
  obtain out o2 ev' where r: "run_steps proc wn w rest cur res orch = (out, o2, ev')"
    by (cases "run_steps proc wn w rest cur res orch") auto
  from run_steps_append [OF reach, of wn rest] r stp
  have whole: "run_steps proc wn w (steps w) t []
                 (orig\<lparr> activeTasksCount := activeTasksCount orig + 1 \<rparr>) = (out, o2, ev0 @ ev')"
    by simp
  from executeWorkflow_run(1) [OF wfreg cap whole] r
  show "executeWorkflow proc wn t orig =
           (case run_steps proc wn w rest cur res orch of
              (out, o2, ev') \<Rightarrow>
                (out, o2\<lparr> activeTasksCount := activeTasksCount orig \<rparr>,
                 ActiveTasks (activeTasksCount orig + 1) # ev0 @ ev' @
                 [ActiveTasks (activeTasksCount orig)]))"
    by simp
  from loop_state_extends [OF reach] show "length res = length pre" by auto
qed

text \<open>
  C1, as the code has it. In an admitted execution that has reached a step of a
  registered agent: when the agent raises at every attempt of the step (an \<^verbatim>\<open>Error\<close>, or
  any value other than \<^verbatim>\<open>undefined\<close> and \<^verbatim>\<open>null\<close>), \<open>executeWithRetry\<close> calls it as many
  times as the step's limit, calls \<^verbatim>\<open>updateMetrics(0, true)\<close> and raises what the last
  attempt raised. The loop of \<open>executeWorkflow\<close> has no handler of its own, so whatever
  \<open>executeWithRetry\<close> raises for a step, the call of \<open>executeWorkflow\<close> fails with it:
  the effects are those of the steps before and of this step's attempts, between the two
  assignments of the counter, so no entry is recorded for the step, \<^verbatim>\<open>escalateOnFailure\<close>
  is not looked at, and no later step and no escalation handler runs.
\<close>

theorem retry_exhaustion_aborts:
  assumes wfreg: "map_of (workflows orig) wn = Some w"
    and cap: "activeTasksCount orig < maxConcurrentTasks orig"
    and stp: "steps w = pre @ s # post"
    and reach: "loop_state proc w pre t []
                  (orig\<lparr> activeTasksCount := activeTasksCount orig + 1 \<rparr>) =
                Some (cur, res, orch, ev0)"
    and ag: "map_of (agents orch) (agentName s) = Some a"
  shows "(\<forall>es b. raises_throughout proc a (step_task cur s) (step_retries s) = Some (es, b) \<longrightarrow>
            (\<exists>ev1.
               executeWithRetry proc a (step_task cur s) (Some (step_retries s)) =
                 (Inl (last es), updateMetrics 0 True b, ev1)
               \<and> length es = step_retries s
               \<and> process_calls ev1 = step_retries s
               \<and> executeWorkflow proc wn t orig =
                   (Inl (last es),
                    orch\<lparr> agents := AList.update (agentName s) (updateMetrics 0 True b)
                                      (agents orch),
                          activeTasksCount := activeTasksCount orig \<rparr>,
                    ActiveTasks (activeTasksCount orig + 1) # ev0 @ ev1 @
                    [ActiveTasks (activeTasksCount orig)])))
       \<and> (\<forall>e a' ev1.
            executeWithRetry proc a (step_task cur s) (Some (step_retries s)) = (Inl e, a', ev1)
            \<longrightarrow>
            executeWorkflow proc wn t orig =
              (Inl e,
               orch\<lparr> agents := AList.update (agentName s) a' (agents orch),
                     activeTasksCount := activeTasksCount orig \<rparr>,
               ActiveTasks (activeTasksCount orig + 1) # ev0 @ ev1 @
               [ActiveTasks (activeTasksCount orig)]))"
proof -
  have raised: "executeWorkflow proc wn t orig =
              (Inl e,
               orch\<lparr> agents := AList.update (agentName s) a' (agents orch),
                     activeTasksCount := activeTasksCount orig \<rparr>,
               ActiveTasks (activeTasksCount orig + 1) # ev0 @ ev1 @
               [ActiveTasks (activeTasksCount orig)])"
    if ex: "executeWithRetry proc a (step_task cur s) (Some (step_retries s)) = (Inl e, a', ev1)"
    for e a' ev1
  proof -
    have "run_steps proc wn w (s # post) cur res orch =
            (Inl e, orch\<lparr> agents := AList.update (agentName s) a' (agents orch) \<rparr>, ev1)"
      using loop_body_raised [OF ag ex, of w res]
      by (simp add: run_steps_Cons_leave del: run_steps.simps)
    with executeWorkflow_at_step(1) [OF wfreg cap stp reach] show ?thesis by simp
  qed
  have all: "\<exists>ev1.
               executeWithRetry proc a (step_task cur s) (Some (step_retries s)) =
                 (Inl (last es), updateMetrics 0 True b, ev1)
               \<and> length es = step_retries s
               \<and> process_calls ev1 = step_retries s
               \<and> executeWorkflow proc wn t orig =
                   (Inl (last es),
                    orch\<lparr> agents := AList.update (agentName s) (updateMetrics 0 True b)
                                      (agents orch),
                          activeTasksCount := activeTasksCount orig \<rparr>,
                    ActiveTasks (activeTasksCount orig + 1) # ev0 @ ev1 @
                    [ActiveTasks (activeTasksCount orig)])"
    if rt: "raises_throughout proc a (step_task cur s) (step_retries s) = Some (es, b)"
    for es b
  proof -
    from step_retries_pos [of s] have "1 + step_retries s = step_retries s + 1" by simp
    from loop_raises_last [OF rt this, of ThrownUndefined]
    obtain ev1 where l: "executeWithRetry_loop proc a (step_task cur s) (step_retries s) 1
                           ThrownUndefined =
                         (Inl (last (ThrownUndefined # es)), updateMetrics 0 True b, ev1)"
      and n: "process_calls ev1 = step_retries s" "length es = step_retries s"
      by blast
    from n(2) step_retries_pos [of s] have "es \<noteq> []" by auto
    with l have ex: "executeWithRetry proc a (step_task cur s) (Some (step_retries s)) =
                 (Inl (last es), updateMetrics 0 True b, ev1)"
      by (simp add: executeWithRetry_def)
    from raised [OF ex] ex n show ?thesis by blast
  qed
  from raised all show ?thesis by blast
qed

theorem retry_exhaustion_aborts_witness:
  "map_of (workflows orch1) ''arb'' = Some wfARB
   \<and> activeTasksCount orch1 < maxConcurrentTasks orch1
   \<and> steps wfARB = [stepA] @ stepR2 # [stepB]
   \<and> (\<exists>orch.
        loop_state scripted wfARB [stepA] taskX []
          (orch1\<lparr> activeTasksCount := activeTasksCount orch1 + 1 \<rparr>) =
        Some ([(''type'', JStr ''x''), (''data'', JObj [(''v'', JNum 2)])],
              [\<lparr> entry_step = ''a'', entry_agent = ''A'',
                  entry_result =
                    [(''success'', JBool True), (''data'', JObj [(''v'', JNum 2)])] \<rparr>],
              orch, [Process ''A'' (step_task taskX stepA)])
        \<and> map_of (agents orch) (agentName stepR2) = Some agentR)
   \<and> raises_throughout scripted agentR
        (step_task [(''type'', JStr ''x''), (''data'', JObj [(''v'', JNum 2)])] stepR2)
        (step_retries stepR2) =
      Some ([Error ''boom'', Error ''boom''],
            agentR\<lparr> own := [Returned [(''success'', JBool True)] 1] \<rparr>)
   \<and> (\<exists>ev1.
        executeWithRetry scripted agentR
          (step_task [(''type'', JStr ''x''), (''data'', JObj [(''v'', JNum 2)])] stepR2)
          (Some (step_retries stepR2)) =
        (Inl (Error ''boom''),
         updateMetrics 0 True (agentR\<lparr> own := [Returned [(''success'', JBool True)] 1] \<rparr>), ev1)
        \<and> process_calls ev1 = 2)
   \<and> fst (executeWorkflow scripted ''arb'' taskX orch1) = Inl (Error ''boom'')
   \<and> snd (snd (executeWorkflow scripted ''arb'' taskX orch1)) =
       [ActiveTasks 1,
        Process ''A'' (step_task taskX stepA),
        Process ''R''
          (step_task [(''type'', JStr ''x''), (''data'', JObj [(''v'', JNum 2)])] stepR2),
        Sleep 200,
        Process ''R''
          (step_task [(''type'', JStr ''x''), (''data'', JObj [(''v'', JNum 2)])] stepR2),
        ActiveTasks 0]"
proof -
  let ?start = "orch1\<lparr> activeTasksCount := activeTasksCount orch1 + 1 \<rparr>"
  let ?cur = "[(''type'', JStr ''x''), (''data'', JObj [(''v'', JNum 2)])]"
  let ?res = "[\<lparr> entry_step = ''a'', entry_agent = ''A'',
                  entry_result =
                    [(''success'', JBool True), (''data'', JObj [(''v'', JNum 2)])] \<rparr>]"
  let ?b = "agentR\<lparr> own := [Returned [(''success'', JBool True)] 1] \<rparr>"
  let ?E = "executeWorkflow scripted ''arb'' taskX orch1"
  have h1: "map_of (workflows orch1) ''arb'' = Some wfARB"
    and h2: "activeTasksCount orch1 < maxConcurrentTasks orch1"
    and h3: "steps wfARB = [stepA] @ stepR2 # [stepB]"
    by (simp_all add: orch1_def orch0_def wfARB_def)
  have hx: "\<exists>orch. loop_state scripted wfARB [stepA] taskX [] ?start =
                Some (?cur, ?res, orch, [Process ''A'' (step_task taskX stepA)])
              \<and> map_of (agents orch) (agentName stepR2) = Some agentR"
    by (simp add: fixture_defs run_defs)
  then obtain orch where
    h4: "loop_state scripted wfARB [stepA] taskX [] ?start =
           Some (?cur, ?res, orch, [Process ''A'' (step_task taskX stepA)])"
    and h5: "map_of (agents orch) (agentName stepR2) = Some agentR"
    by blast
  have n: "step_retries stepR2 = 2" "activeTasksCount orch1 = 0"
    by (simp_all add: fixture_defs run_defs)
  have h6: "raises_throughout scripted agentR (step_task ?cur stepR2) (step_retries stepR2) =
              Some ([Error ''boom'', Error ''boom''], ?b)"
    by (simp add: n numeral_2_eq_2 scripted_def agentR_def new_agent_def)
  from retry_exhaustion_aborts [where proc = scripted and pre = "[stepA]" and post = "[stepB]",
      OF h1 h2 h3 h4 h5] h6
  obtain ev1 where
    a: "executeWithRetry scripted agentR (step_task ?cur stepR2) (Some (step_retries stepR2)) =
          (Inl (last [Error ''boom'', Error ''boom'']), updateMetrics 0 True ?b, ev1)"
    and b: "process_calls ev1 = step_retries stepR2"
    and c: "fst ?E = Inl (last [Error ''boom'', Error ''boom''])"
    by fastforce
  from a b n have a': "\<exists>ev1.
        executeWithRetry scripted agentR (step_task ?cur stepR2) (Some (step_retries stepR2)) =
          (Inl (Error ''boom''), updateMetrics 0 True ?b, ev1)
        \<and> process_calls ev1 = 2"
    by auto
  from c have c': "fst ?E = Inl (Error ''boom'')" by simp
  have d: "snd (snd ?E) =
       [ActiveTasks 1,
        Process ''A'' (step_task taskX stepA),
        Process ''R'' (step_task ?cur stepR2),
        Sleep 200,
        Process ''R'' (step_task ?cur stepR2),
        ActiveTasks 0]"
    by (simp add: fixture_defs run_defs)
  from h1 h2 h3 hx h6 a' c' d show ?thesis by blast
qed

text \<open>A step with \<^verbatim>\<open>escalateOnFailure\<close> whose agent raises at both attempts: the
  workflow call raises that error; nothing is returned and the handler is not called.\<close>

theorem retry_exhaustion_counterexample:
  "escalateOnFailure stepR2 \<and> retries stepR2 = Some 2
   \<and> escalationHandler wfR2 = Some ''H''
   \<and> executeWithRetry scripted agentR (step_task taskX stepR2) (Some 2) =
       (Inl (Error ''boom''),
        updateMetrics 0 True (agentR\<lparr> own := [Returned [(''success'', JBool True)] 1] \<rparr>),
        [Process ''R'' (step_task taskX stepR2), Sleep 200,
         Process ''R'' (step_task taskX stepR2)])
   \<and> fst (executeWorkflow scripted ''r2'' taskX orch0) = Inl (Error ''boom'')
   \<and> snd (snd (executeWorkflow scripted ''r2'' taskX orch0)) =
       [ActiveTasks 1, Process ''R'' (step_task taskX stepR2), Sleep 200,
        Process ''R'' (step_task taskX stepR2), ActiveTasks 0]"
  by (simp add: fixture_defs run_defs)

text \<open>
  C2, as the code has it. The attempt limit of a step is \<^verbatim>\<open>step.retries || 1\<close>: one
  attempt when the step gives no \<^verbatim>\<open>retries\<close> (or 0), its \<^verbatim>\<open>retries\<close> otherwise. The
  loop calls \<open>executeWithRetry\<close> with that limit, and whatever the outcome the agent is
  then called at least once and at most that many times; the only calls of the iteration
  besides are the escalation handler's, one at most. A step whose agent raises at every
  attempt has called it exactly that many times; a step that raises has done so too,
  unless what it raises is the \<^verbatim>\<open>TypeError\<close> of a \<^verbatim>\<open>catch\<close> block reading the
  \<^verbatim>\<open>message\<close> of \<^verbatim>\<open>undefined\<close> or \<^verbatim>\<open>null\<close>. The default of three attempts is that of
  \<open>executeWithRetry\<close> called without a limit, which \<open>executeWorkflow\<close> never does.
\<close>

theorem step_attempt_limit:
  "(retries s = None \<longrightarrow> step_retries s = 1)
   \<and> (\<forall>n. retries s = Some n \<longrightarrow> step_retries s = max 1 n)
   \<and> (\<forall>e orch' ev. map_of (agents orch) (agentName s) \<noteq> None
         \<and> loop_body proc w s cur res orch = (Leave (Inl e), orch', ev) \<longrightarrow>
         process_calls ev = step_retries s \<or> (\<exists>v. nullish v \<and> e = message_TypeError v))
   \<and> (\<forall>c r orch' ev. loop_body proc w s cur res orch = (Continue c r, orch', ev) \<longrightarrow>
         1 \<le> process_calls ev \<and> process_calls ev \<le> step_retries s)
   \<and> (\<forall>b out b' ev. map_of (agents orch) (agentName s) = Some b
         \<and> executeWithRetry proc b (step_task cur s) (Some (step_retries s)) = (out, b', ev) \<longrightarrow>
         1 \<le> process_calls ev \<and> process_calls ev \<le> step_retries s
         \<and> (\<exists>it orch' ev'. loop_body proc w s cur res orch = (it, orch', ev @ ev')
               \<and> process_calls ev' \<le> 1))
   \<and> (\<forall>b es b'. map_of (agents orch) (agentName s) = Some b
         \<and> raises_throughout proc b (step_task cur s) (step_retries s) = Some (es, b') \<longrightarrow>
         (\<exists>ev. loop_body proc w s cur res orch =
                  (Leave (Inl (last es)),
                   orch\<lparr> agents := AList.update (agentName s) (updateMetrics 0 True b')
                                     (agents orch) \<rparr>, ev)
               \<and> process_calls ev = step_retries s))
   \<and> executeWithRetry proc a task None = executeWithRetry proc a task (Some 3)"
proof (intro conjI allI impI)
  show "step_retries s = 1" if "retries s = None"
    using that by (simp add: step_retries_def)
next
  fix n show "step_retries s = max 1 n" if "retries s = Some n"
    using that by (simp add: step_retries_def)
next
  fix e orch' ev
  assume h: "map_of (agents orch) (agentName s) \<noteq> None
         \<and> loop_body proc w s cur res orch = (Leave (Inl e), orch', ev)"
  show "process_calls ev = step_retries s \<or> (\<exists>v. nullish v \<and> e = message_TypeError v)"
  proof (cases rule: loop_body_cases [where orch = orch and s = s and proc = proc and cur = cur])
    case unregistered
    with h show ?thesis by simp
  next
    case (raised b e' b' ev')
    from h loop_body_raised [OF raised, of w res] have "e' = e" "ev' = ev" by simp_all
    with executeWithRetry_effects(4) [OF raised(2), of e] show ?thesis by simp
  next
    case (escalates b r b' ev')
    let ?o = "orch\<lparr> agents := AList.update (agentName s) b' (agents orch) \<rparr>"
    let ?rs = "res @ [\<lparr> entry_step = step_name s, entry_agent = agentName s, entry_result = r \<rparr>]"
    obtain x o2 ev2 where he: "handleEscalation proc w s r ?rs ?o = (x, o2, ev2)"
      by (cases "handleEscalation proc w s r ?rs ?o") auto
    with h loop_body_escalates [OF escalates, of w res] have "x = Inl e" by simp
    with he handleEscalation_raised [of proc w s r ?rs ?o e o2 ev2] show ?thesis by simp
  next
    case (continues b r b' ev')
    with h loop_body_continues [OF continues, of w res] show ?thesis by simp
  qed
next
  fix c r orch' ev
  assume h: "loop_body proc w s cur res orch = (Continue c r, orch', ev)"
  have "1 \<le> process_calls ev \<and> process_calls ev \<le> step_retries s"
  proof (cases rule: loop_body_cases [where orch = orch and s = s and proc = proc and cur = cur])
    case unregistered
    with h show ?thesis by (simp add: loop_body_unregistered)
  next
    case (raised b e' b' ev')
    with h loop_body_raised [OF raised, of w res] show ?thesis by simp
  next
    case (escalates b r b' ev')
    with h loop_body_escalates [OF escalates, of w res] show ?thesis
      by (simp split: prod.splits)
  next
    case (continues b r' b' ev')
    from h loop_body_continues [OF continues, of w res] have "ev' = ev" by simp
    with executeWithRetry_effects(2,3) [OF continues(2)] show ?thesis by simp
  qed
  then show "1 \<le> process_calls ev" and "process_calls ev \<le> step_retries s" by simp_all
next
  fix b out b' ev
  assume h: "map_of (agents orch) (agentName s) = Some b
         \<and> executeWithRetry proc b (step_task cur s) (Some (step_retries s)) = (out, b', ev)"
  then have ag: "map_of (agents orch) (agentName s) = Some b"
    and ex: "executeWithRetry proc b (step_task cur s) (Some (step_retries s)) = (out, b', ev)"
    by simp_all
  from executeWithRetry_effects(2,3) [OF ex]
  show "1 \<le> process_calls ev" and "process_calls ev \<le> step_retries s" by simp_all
  show "\<exists>it orch' ev'. loop_body proc w s cur res orch = (it, orch', ev @ ev')
               \<and> process_calls ev' \<le> 1"
  proof (cases out)
    case (Inl e)
    from loop_body_raised [OF ag ex [unfolded Inl], of w res] show ?thesis by simp
  next
    case (Inr r)
    show ?thesis
    proof (cases "\<not> truthy (js_get r ''success'') \<and> escalateOnFailure s")
      case True
      let ?o = "orch\<lparr> agents := AList.update (agentName s) b' (agents orch) \<rparr>"
      let ?rs = "res @ [\<lparr> entry_step = step_name s, entry_agent = agentName s,
                           entry_result = r \<rparr>]"
      obtain x o2 ev2 where he: "handleEscalation proc w s r ?rs ?o = (x, o2, ev2)"
        by (cases "handleEscalation proc w s r ?rs ?o") auto
      from True loop_body_escalates [OF ag ex [unfolded Inr], of w res] he
      have "loop_body proc w s cur res orch = (Leave x, o2, ev @ ev2)" by simp
      with handleEscalation_calls [OF he] show ?thesis by blast
    next
      case False
      from loop_body_continues [OF ag ex [unfolded Inr] False, of w res] show ?thesis by simp
    qed
  qed
next
  fix b es b'
  assume h: "map_of (agents orch) (agentName s) = Some b
         \<and> raises_throughout proc b (step_task cur s) (step_retries s) = Some (es, b')"
  then have ag: "map_of (agents orch) (agentName s) = Some b"
    and rt: "raises_throughout proc b (step_task cur s) (step_retries s) = Some (es, b')"
    by simp_all
  from step_retries_pos [of s] have "1 + step_retries s = step_retries s + 1" by simp
  from loop_raises_last [OF rt this, of ThrownUndefined]
  obtain ev where l: "executeWithRetry_loop proc b (step_task cur s) (step_retries s) 1
                         ThrownUndefined =
                       (Inl (last (ThrownUndefined # es)), updateMetrics 0 True b', ev)"
    and n: "process_calls ev = step_retries s" "length es = step_retries s"
    by blast
  from n(2) step_retries_pos [of s] have "es \<noteq> []" by auto
  with l have ex: "executeWithRetry proc b (step_task cur s) (Some (step_retries s)) =
               (Inl (last es), updateMetrics 0 True b', ev)"
    by (simp add: executeWithRetry_def)
  from loop_body_raised [OF ag ex, of w res] n(1)
  show "\<exists>ev. loop_body proc w s cur res orch =
                  (Leave (Inl (last es)),
                   orch\<lparr> agents := AList.update (agentName s) (updateMetrics 0 True b')
                                     (agents orch) \<rparr>, ev)
               \<and> process_calls ev = step_retries s"
    by blast
next
  show "executeWithRetry proc a task None = executeWithRetry proc a task (Some 3)"
    by (simp add: executeWithRetry_def)
qed

theorem step_attempt_limit_witness:
  "retries stepR0 = None \<and> step_retries stepR0 = 1
   \<and> retries stepR2 = Some 2 \<and> step_retries stepR2 = max 1 2
   \<and> map_of (agents orch0) (agentName stepR0) \<noteq> None
   \<and> fst (loop_body scripted wfR0 stepR0 taskX [] orch0) = Leave (Inl (Error ''boom''))
   \<and> process_calls (snd (snd (loop_body scripted wfR0 stepR0 taskX [] orch0))) =
       step_retries stepR0
   \<and> fst (loop_body scripted wfAB stepA taskX [] orch0) =
       Continue [(''type'', JStr ''x''), (''data'', JObj [(''v'', JNum 2)])]
         [\<lparr> entry_step = ''a'', entry_agent = ''A'',
             entry_result = [(''success'', JBool True), (''data'', JObj [(''v'', JNum 2)])] \<rparr>]
   \<and> 1 \<le> process_calls (snd (snd (loop_body scripted wfAB stepA taskX [] orch0)))
   \<and> process_calls (snd (snd (loop_body scripted wfAB stepA taskX [] orch0))) \<le>
       step_retries stepA
   \<and> map_of (agents orch0) (agentName stepG) = Some agentG
   \<and> executeWithRetry scripted agentG (step_task taskX stepG) (Some (step_retries stepG)) =
       (Inr [(''success'', JBool False)], updateMetrics 1 False (agentG\<lparr> own := [] \<rparr>),
        [Process ''G'' (step_task taskX stepG)])
   \<and> 1 \<le> process_calls [Process ''G'' (step_task taskX stepG)]
   \<and> process_calls [Process ''G'' (step_task taskX stepG)] \<le> step_retries stepG
   \<and> (\<exists>it orch' ev'. loop_body scripted wfFGB stepG taskX [] orch0 =
         (it, orch', [Process ''G'' (step_task taskX stepG)] @ ev') \<and> process_calls ev' \<le> 1)
   \<and> map_of (agents orch0) (agentName stepR2) = Some agentR
   \<and> raises_throughout scripted agentR (step_task taskX stepR2) (step_retries stepR2) =
       Some ([Error ''boom'', Error ''boom''],
             agentR\<lparr> own := [Returned [(''success'', JBool True)] 1] \<rparr>)
   \<and> (\<exists>ev. loop_body scripted wfR2 stepR2 taskX [] orch0 =
         (Leave (Inl (Error ''boom'')),
          orch0\<lparr> agents := AList.update (agentName stepR2)
                   (updateMetrics 0 True
                      (agentR\<lparr> own := [Returned [(''success'', JBool True)] 1] \<rparr>))
                   (agents orch0) \<rparr>, ev)
         \<and> process_calls ev = 2)
   \<and> executeWithRetry scripted agentR taskX None = executeWithRetry scripted agentR taskX (Some 3)"
proof -
  let ?b1 = "loop_body scripted wfR0 stepR0 taskX [] orch0"
  let ?b2 = "loop_body scripted wfAB stepA taskX [] orch0"
  let ?c = "[(''type'', JStr ''x''), (''data'', JObj [(''v'', JNum 2)])]"
  let ?r = "[\<lparr> entry_step = ''a'', entry_agent = ''A'',
             entry_result = [(''success'', JBool True), (''data'', JObj [(''v'', JNum 2)])] \<rparr>]"
  let ?bR = "agentR\<lparr> own := [Returned [(''success'', JBool True)] 1] \<rparr>"
  have h: "retries stepR0 = None" "retries stepR2 = Some 2"
    "map_of (agents orch0) (agentName stepR0) \<noteq> None"
    "map_of (agents orch0) (agentName stepG) = Some agentG"
    "map_of (agents orch0) (agentName stepR2) = Some agentR"
    by (simp_all add: stepR0_def stepR2_def stepG_def stepOf_def orch0_def)
  have n: "step_retries stepR2 = 2"
    by (simp add: step_retries_def stepR2_def stepOf_def)
  have f1: "fst ?b1 = Leave (Inl (Error ''boom''))"
    by (simp add: fixture_defs run_defs)
  have f2: "fst ?b2 = Continue ?c ?r"
    by (simp add: fixture_defs run_defs)
  have f3: "executeWithRetry scripted agentG (step_task taskX stepG) (Some (step_retries stepG)) =
       (Inr [(''success'', JBool False)], updateMetrics 1 False (agentG\<lparr> own := [] \<rparr>),
        [Process ''G'' (step_task taskX stepG)])"
    by (simp add: fixture_defs run_defs)
  have f4: "raises_throughout scripted agentR (step_task taskX stepR2) (step_retries stepR2) =
       Some ([Error ''boom'', Error ''boom''], ?bR)"
    by (simp add: n numeral_2_eq_2 scripted_def agentR_def new_agent_def)
  have nm: "\<not> (\<exists>v. nullish v \<and> Error ''boom'' = message_TypeError v)"
    by (simp add: message_TypeError_def)
  from f1 have t1: "?b1 = (Leave (Inl (Error ''boom'')), fst (snd ?b1), snd (snd ?b1))"
    by (metis prod.collapse)
  from f2 have t2: "?b2 = (Continue ?c ?r, fst (snd ?b2), snd (snd ?b2))"
    by (metis prod.collapse)
  note i1 = step_attempt_limit [where s = stepR0 and orch = orch0 and proc = scripted
      and w = wfR0 and cur = taskX and res = "[]" and a = agentR and task = taskX]
  note i2 = step_attempt_limit [where s = stepR2 and orch = orch0 and proc = scripted
      and w = wfR2 and cur = taskX and res = "[]" and a = agentR and task = taskX]
  note i3 = step_attempt_limit [where s = stepA and orch = orch0 and proc = scripted
      and w = wfAB and cur = taskX and res = "[]" and a = agentR and task = taskX]
  note i4 = step_attempt_limit [where s = stepG and orch = orch0 and proc = scripted
      and w = wfFGB and cur = taskX and res = "[]" and a = agentR and task = taskX]
  from i1 h have a: "step_retries stepR0 = 1" by blast
  from i2 h have b: "step_retries stepR2 = max 1 2" by blast
  from i1 h t1 nm have c: "process_calls (snd (snd ?b1)) = step_retries stepR0" by blast
  from i3 t2 have d: "1 \<le> process_calls (snd (snd ?b2))"
      "process_calls (snd (snd ?b2)) \<le> step_retries stepA" by blast+
  from i4 h f3 have g: "1 \<le> process_calls [Process ''G'' (step_task taskX stepG)]"
    "process_calls [Process ''G'' (step_task taskX stepG)] \<le> step_retries stepG"
    "\<exists>it orch' ev'. loop_body scripted wfFGB stepG taskX [] orch0 =
         (it, orch', [Process ''G'' (step_task taskX stepG)] @ ev') \<and> process_calls ev' \<le> 1"
    by blast+
  from i2 h f4 have "\<exists>ev. loop_body scripted wfR2 stepR2 taskX [] orch0 =
         (Leave (Inl (last [Error ''boom'', Error ''boom''])),
          orch0\<lparr> agents := AList.update (agentName stepR2) (updateMetrics 0 True ?bR)
                   (agents orch0) \<rparr>, ev)
         \<and> process_calls ev = step_retries stepR2"
    by blast
  with n have k: "\<exists>ev. loop_body scripted wfR2 stepR2 taskX [] orch0 =
         (Leave (Inl (Error ''boom'')),
          orch0\<lparr> agents := AList.update (agentName stepR2) (updateMetrics 0 True ?bR)
                   (agents orch0) \<rparr>, ev)
         \<and> process_calls ev = 2"
    by simp
  from i1 have e: "executeWithRetry scripted agentR taskX None =
      executeWithRetry scripted agentR taskX (Some 3)" by blast
  from h f1 f2 f3 f4 a b c d g k e show ?thesis by blast
qed

text \<open>A step without \<^verbatim>\<open>retries\<close> whose agent raises twice and would then succeed: the
  agent is called once and the workflow call raises.\<close>

theorem step_default_retries_counterexample:
  "retries stepR0 = None
   \<and> own agentR = [Raised ''boom'', Raised ''boom'', Returned [(''success'', JBool True)] 1]
   \<and> fst (executeWorkflow scripted ''r0'' taskX orch0) = Inl (Error ''boom'')
   \<and> snd (snd (executeWorkflow scripted ''r0'' taskX orch0)) =
       [ActiveTasks 1, Process ''R'' (step_task taskX stepR0), ActiveTasks 0]"
  by (simp add: fixture_defs run_defs)

lemma js_get_set_same: "js_get (js_set k v ob) k = v"
  by (simp add: js_get_def js_set_def map_of_update_same)

lemma js_get_set_other: "k' \<noteq> k \<Longrightarrow> js_get (js_set k v ob) k' = js_get ob k'"
  by (simp add: js_get_def js_set_def map_of_update_other)

lemma js_get_step_task:
  "k \<noteq> ''stepName'' \<Longrightarrow> k \<noteq> ''stepConfig'' \<Longrightarrow> js_get (step_task c s) k = js_get c k"
  by (simp add: step_task_def js_get_set_other)

text \<open>
  In an admitted execution that has reached a step, if the step's result has
  \<^verbatim>\<open>success: false\<close> and the step has \<^verbatim>\<open>escalateOnFailure\<close>, then \<open>executeWorkflow\<close>
  does what \<open>handleEscalation\<close> does for that step, with the earlier entries and this
  step's: the effects of the whole call are those of the steps before, of this step and of
  the escalation, between the two assignments of the counter, so no later step runs.
  Unless the handler rejects with \<^verbatim>\<open>undefined\<close> or \<^verbatim>\<open>null\<close>, an object is returned, with
  \<^verbatim>\<open>success: false\<close>, \<^verbatim>\<open>escalated: true\<close> and as many entries as the step's index plus
  one; in that one case the call raises the \<^verbatim>\<open>TypeError\<close> of \<open>handleEscalation\<close>.
\<close>

lemma escalation_at_step:
  assumes wfreg: "map_of (workflows orig) wn = Some w"
    and cap: "activeTasksCount orig < maxConcurrentTasks orig"
    and stp: "steps w = pre @ s # post"
    and reach: "loop_state proc w pre t []
                  (orig\<lparr> activeTasksCount := activeTasksCount orig + 1 \<rparr>) =
                Some (cur, res, orch, ev0)"
    and ag: "map_of (agents orch) (agentName s) = Some a"
    and ex: "executeWithRetry proc a (step_task cur s) (Some (step_retries s)) = (Inr r, a', ev1)"
    and failed: "js_get r ''success'' = JBool False"
    and flag: "escalateOnFailure s"
  shows "\<exists>x orch' ev2.
           handleEscalation proc w s r
             (res @ [\<lparr> entry_step = step_name s, entry_agent = agentName s, entry_result = r \<rparr>])
             (orch\<lparr> agents := AList.update (agentName s) a' (agents orch) \<rparr>) =
             (x, orch', ev2)
         \<and> executeWorkflow proc wn t orig =
             (x, orch'\<lparr> activeTasksCount := activeTasksCount orig \<rparr>,
              ActiveTasks (activeTasksCount orig + 1) # ev0 @ ev1 @ ev2 @
              [ActiveTasks (activeTasksCount orig)])
         \<and> process_calls ev2 \<le> 1
         \<and> (\<forall>out. x = Inr out \<longrightarrow>
               \<not> wf_success out \<and> escalated out
               \<and> recorded out =
                   res @ [\<lparr> entry_step = step_name s, entry_agent = agentName s,
                             entry_result = r \<rparr>]
               \<and> length (recorded out) = length pre + 1)
         \<and> (\<forall>e. x = Inl e \<longrightarrow> (\<exists>v. nullish v \<and> e = message_TypeError v))
         \<and> ((\<exists>out. x = Inr out) \<longleftrightarrow>
              \<not> handler_rejects_nullish proc w s r
                  (res @ [\<lparr> entry_step = step_name s, entry_agent = agentName s,
                            entry_result = r \<rparr>])
                  (orch\<lparr> agents := AList.update (agentName s) a' (agents orch) \<rparr>))"
proof -
  let ?o = "orch\<lparr> agents := AList.update (agentName s) a' (agents orch) \<rparr>"
  let ?rs = "res @ [\<lparr> entry_step = step_name s, entry_agent = agentName s, entry_result = r \<rparr>]"
  obtain x orch' ev2 where h: "handleEscalation proc w s r ?rs ?o = (x, orch', ev2)"
    by (cases "handleEscalation proc w s r ?rs ?o") auto
  from failed have nt: "\<not> truthy (js_get r ''success'')" by simp
  have "run_steps proc wn w (s # post) cur res orch = (x, orch', ev1 @ ev2)"
    using loop_body_escalates [OF ag ex nt flag, of w res] h
    by (simp add: run_steps_Cons_leave del: run_steps.simps)
  with executeWorkflow_at_step [OF wfreg cap stp reach]
  have e: "executeWorkflow proc wn t orig =
          (x, orch'\<lparr> activeTasksCount := activeTasksCount orig \<rparr>,
           ActiveTasks (activeTasksCount orig + 1) # ev0 @ ev1 @ ev2 @
           [ActiveTasks (activeTasksCount orig)])"
    and l: "length res = length pre"
    by simp_all
  have r: "\<not> wf_success out \<and> escalated out \<and> recorded out = ?rs
             \<and> length (recorded out) = length pre + 1" if "x = Inr out" for out
    using handleEscalation_returned [of proc w s r ?rs ?o out orch' ev2] h that l by simp
  have i: "\<exists>v. nullish v \<and> e = message_TypeError v" if "x = Inl e" for e
    using handleEscalation_raised [of proc w s r ?rs ?o e orch' ev2] h that by simp
  have j: "(\<exists>out. x = Inr out) \<longleftrightarrow> \<not> handler_rejects_nullish proc w s r ?rs ?o"
  proof
    assume "\<exists>out. x = Inr out"
    then obtain out where "x = Inr out" by blast
    show "\<not> handler_rejects_nullish proc w s r ?rs ?o"
    proof
      assume "handler_rejects_nullish proc w s r ?rs ?o"
      with h \<open>x = Inr out\<close> show False
        by (auto simp: handleEscalation_def handler_rejects_nullish_def read_message_def Let_def
            split: option.splits prod.splits process_outcome.splits if_splits)
    qed
  next
    assume "\<not> handler_rejects_nullish proc w s r ?rs ?o"
    from handleEscalation_returns [OF this] h show "\<exists>out. x = Inr out" by auto
  qed
  from h e handleEscalation_calls [OF h] r i j show ?thesis by blast
qed

text \<open>
  C3 does not hold of the code for every execution, by the defect in the \<^verbatim>\<open>catch\<close> block
  of \<open>handleEscalation\<close>. In the workflow
  \<^verbatim>\<open>gnull\<close> the first of two steps has \<^verbatim>\<open>escalateOnFailure\<close> and its agent returns
  \<^verbatim>\<open>{success: false}\<close>; the workflow's escalation handler rejects with \<^verbatim>\<open>undefined\<close>.
  The loop stops at that step, the handler is called and the second step is not, but the
  call of \<open>executeWorkflow\<close> raises the \<^verbatim>\<open>TypeError\<close> of \<open>handleEscalation\<close>'s
  \<^verbatim>\<open>catch\<close> block: no object with \<^verbatim>\<open>success: false\<close> and \<^verbatim>\<open>escalated: true\<close> is
  returned. For every other escalation the claim holds (lemma \<open>escalation_at_step\<close>).
\<close>

theorem escalating_step_raises:
  "map_of (workflows orch1) ''gnull'' = Some wfGnull
   \<and> steps wfGnull = [stepG, stepB] \<and> escalateOnFailure stepG
   \<and> escalationHandler wfGnull = Some ''Hnull''
   \<and> executeWithRetry scripted agentG (step_task taskX stepG) (Some (step_retries stepG)) =
       (Inr [(''success'', JBool False)], updateMetrics 1 False (agentG\<lparr> own := [] \<rparr>),
        [Process ''G'' (step_task taskX stepG)])
   \<and> own agentHnull = [RaisedValue JUndefined]
   \<and> fst (executeWorkflow scripted ''gnull'' taskX orch1) =
       Inl (Error ''Cannot read properties of undefined (reading 'message')'')
   \<and> snd (snd (executeWorkflow scripted ''gnull'' taskX orch1)) =
       [ActiveTasks 1,
        Process ''G'' (step_task taskX stepG),
        Process ''Hnull''
          (escalation_task wfGnull stepG [(''success'', JBool False)]
             [\<lparr> entry_step = ''g'', entry_agent = ''G'',
                 entry_result = [(''success'', JBool False)] \<rparr>]),
        ActiveTasks 0]"
  by (simp add: fixture_defs run_defs)

text \<open>
  C4, as the code has it. In an admitted execution that has reached a step, if the step's
  result has \<^verbatim>\<open>success: false\<close> and the step has no \<^verbatim>\<open>escalateOnFailure\<close>, the loop
  records the entry and goes on to the steps after it, with the result's data as the new
  payload if it is truthy. Whenever the call then returns the report of a completed
  workflow, its \<^verbatim>\<open>results\<close> have one entry for every step of the definition, this
  step's entry at the step's index.
\<close>

theorem soft_failure_continues:
  assumes wfreg: "map_of (workflows orig) wn = Some w"
    and cap: "activeTasksCount orig < maxConcurrentTasks orig"
    and stp: "steps w = pre @ s # post"
    and reach: "loop_state proc w pre t []
                  (orig\<lparr> activeTasksCount := activeTasksCount orig + 1 \<rparr>) =
                Some (cur, res, orch, ev0)"
    and ag: "map_of (agents orch) (agentName s) = Some a"
    and ex: "executeWithRetry proc a (step_task cur s) (Some (step_retries s)) = (Inr r, a', ev1)"
    and failed: "js_get r ''success'' = JBool False"
    and noflag: "\<not> escalateOnFailure s"
  shows "loop_state proc w (pre @ [s]) t []
           (orig\<lparr> activeTasksCount := activeTasksCount orig + 1 \<rparr>) =
         Some (if truthy (js_get r ''data'') then js_set ''data'' (js_get r ''data'') cur else cur,
               res @ [\<lparr> entry_step = step_name s, entry_agent = agentName s, entry_result = r \<rparr>],
               orch\<lparr> agents := AList.update (agentName s) a' (agents orch) \<rparr>,
               ev0 @ ev1)
       \<and> executeWorkflow proc wn t orig =
           (case run_steps proc wn w post
                   (if truthy (js_get r ''data'') then js_set ''data'' (js_get r ''data'') cur
                    else cur)
                   (res @ [\<lparr> entry_step = step_name s, entry_agent = agentName s,
                              entry_result = r \<rparr>])
                   (orch\<lparr> agents := AList.update (agentName s) a' (agents orch) \<rparr>) of
              (out, o2, ev') \<Rightarrow>
                (out, o2\<lparr> activeTasksCount := activeTasksCount orig \<rparr>,
                 ActiveTasks (activeTasksCount orig + 1) # ev0 @ ev1 @ ev' @
                 [ActiveTasks (activeTasksCount orig)]))
       \<and> (\<forall>x rs o2 ev. executeWorkflow proc wn t orig = (Inr (Completed x rs), o2, ev) \<longrightarrow>
             length rs = length (steps w)
             \<and> rs ! length pre =
                 \<lparr> entry_step = step_name s, entry_agent = agentName s, entry_result = r \<rparr>)"
proof (intro conjI allI impI)
  let ?start = "orig\<lparr> activeTasksCount := activeTasksCount orig + 1 \<rparr>"
  let ?o = "orch\<lparr> agents := AList.update (agentName s) a' (agents orch) \<rparr>"
  let ?e = "\<lparr> entry_step = step_name s, entry_agent = agentName s, entry_result = r \<rparr>"
  let ?c = "if truthy (js_get r ''data'') then js_set ''data'' (js_get r ''data'') cur else cur"
  from noflag have go: "\<not> (\<not> truthy (js_get r ''success'') \<and> escalateOnFailure s)" by simp
  note body = loop_body_continues [OF ag ex go, of w res]
  show one: "loop_state proc w (pre @ [s]) t [] ?start = Some (?c, res @ [?e], ?o, ev0 @ ev1)"
    using reach body by (simp add: loop_state_append)
  have "steps w = (pre @ [s]) @ post" using stp by simp
  from executeWorkflow_at_step(1) [OF wfreg cap this one]
  show "executeWorkflow proc wn t orig =
           (case run_steps proc wn w post ?c (res @ [?e]) ?o of
              (out, o2, ev') \<Rightarrow>
                (out, o2\<lparr> activeTasksCount := activeTasksCount orig \<rparr>,
                 ActiveTasks (activeTasksCount orig + 1) # ev0 @ ev1 @ ev' @
                 [ActiveTasks (activeTasksCount orig)]))"
    by simp
  fix x rs o2 ev
  assume fin: "executeWorkflow proc wn t orig = (Inr (Completed x rs), o2, ev)"
  obtain out o3 ev3 where whole: "run_steps proc wn w (steps w) t [] ?start = (out, o3, ev3)"
    by (cases "run_steps proc wn w (steps w) t [] ?start") auto
  with fin executeWorkflow_run(1) [OF wfreg cap whole]
  have "out = Inr (Completed x rs)" by simp
  with run_steps_completed whole
  obtain c where all: "loop_state proc w (steps w) t [] ?start = Some (c, rs, o3, ev3)"
    by blast
  from loop_state_extends [OF all] show "length rs = length (steps w)" by auto
  from all stp have "loop_state proc w ((pre @ [s]) @ post) t [] ?start = Some (c, rs, o3, ev3)"
    by simp
  with one obtain ev4 where "loop_state proc w post ?c (res @ [?e]) ?o = Some (c, rs, o3, ev4)"
    unfolding loop_state_append [of proc w "pre @ [s]" post]
    by (auto split: option.splits)
  from loop_state_extends [OF this] obtain ext where "rs = (res @ [?e]) @ ext" by blast
  moreover from loop_state_extends [OF reach] have "length res = length pre" by auto
  ultimately show "rs ! length pre = ?e"
    by (simp add: nth_append)
qed

theorem soft_failure_continues_witness:
  "map_of (workflows orch0) ''fb'' = Some wfFB
   \<and> activeTasksCount orch0 < maxConcurrentTasks orch0
   \<and> steps wfFB = [] @ stepF # [stepB]
   \<and> loop_state scripted wfFB [] taskX []
        (orch0\<lparr> activeTasksCount := activeTasksCount orch0 + 1 \<rparr>) =
      Some (taskX, [], orch0\<lparr> activeTasksCount := activeTasksCount orch0 + 1 \<rparr>, [])
   \<and> map_of (agents (orch0\<lparr> activeTasksCount := activeTasksCount orch0 + 1 \<rparr>))
        (agentName stepF) = Some agentF
   \<and> executeWithRetry scripted agentF (step_task taskX stepF) (Some (step_retries stepF)) =
       (Inr [(''success'', JBool False), (''error'', JStr ''bad input'')],
        updateMetrics 7 False
          (agentF\<lparr> own := [Returned [(''success'', JBool True), (''data'', JObj [])] 7] \<rparr>),
        [Process ''F'' (step_task taskX stepF)])
   \<and> js_get [(''success'', JBool False), (''error'', JStr ''bad input'')] ''success'' =
       JBool False
   \<and> \<not> escalateOnFailure stepF
   \<and> (\<exists>orch. loop_state scripted wfFB ([] @ [stepF]) taskX []
                 (orch0\<lparr> activeTasksCount := activeTasksCount orch0 + 1 \<rparr>) =
               Some (taskX,
                     [\<lparr> entry_step = ''f'', entry_agent = ''F'',
                         entry_result =
                           [(''success'', JBool False), (''error'', JStr ''bad input'')] \<rparr>],
                     orch, [Process ''F'' (step_task taskX stepF)]))
   \<and> fst (executeWorkflow scripted ''fb'' taskX orch0) =
       Inr (Completed ''fb''
              [\<lparr> entry_step = ''f'', entry_agent = ''F'',
                  entry_result = [(''success'', JBool False), (''error'', JStr ''bad input'')] \<rparr>,
               \<lparr> entry_step = ''b'', entry_agent = ''B'',
                  entry_result = [(''success'', JBool True)] \<rparr>])
   \<and> length [\<lparr> entry_step = ''f'', entry_agent = ''F'',
                 entry_result = [(''success'', JBool False), (''error'', JStr ''bad input'')] \<rparr>,
              \<lparr> entry_step = ''b'', entry_agent = ''B'',
                 entry_result = [(''success'', JBool True)] \<rparr>] = length (steps wfFB)
   \<and> snd (snd (executeWorkflow scripted ''fb'' taskX orch0)) =
       [ActiveTasks 1, Process ''F'' (step_task taskX stepF),
        Process ''B'' (step_task taskX stepB), ActiveTasks 0]"
proof -
  let ?start = "orch0\<lparr> activeTasksCount := activeTasksCount orch0 + 1 \<rparr>"
  let ?rF = "[(''success'', JBool False), (''error'', JStr ''bad input'')]"
  let ?eF = "\<lparr> entry_step = ''f'', entry_agent = ''F'', entry_result = ?rF \<rparr>"
  let ?eB = "\<lparr> entry_step = ''b'', entry_agent = ''B'',
               entry_result = [(''success'', JBool True)] \<rparr>"
  let ?a' = "updateMetrics 7 False
          (agentF\<lparr> own := [Returned [(''success'', JBool True), (''data'', JObj [])] 7] \<rparr>)"
  let ?E = "executeWorkflow scripted ''fb'' taskX orch0"
  have h1: "map_of (workflows orch0) ''fb'' = Some wfFB"
    and h2: "activeTasksCount orch0 < maxConcurrentTasks orch0"
    and h3: "steps wfFB = [] @ stepF # [stepB]"
    and h4: "loop_state scripted wfFB [] taskX [] ?start = Some (taskX, [], ?start, [])"
    and h5: "map_of (agents ?start) (agentName stepF) = Some agentF"
    and h7: "js_get ?rF ''success'' = JBool False"
    and h8: "\<not> escalateOnFailure stepF"
    by (simp_all add: orch0_def wfFB_def stepF_def stepOf_def js_get_def)
  have h6: "executeWithRetry scripted agentF (step_task taskX stepF) (Some (step_retries stepF)) =
       (Inr ?rF, ?a', [Process ''F'' (step_task taskX stepF)])"
    by (simp add: fixture_defs run_defs)
  have f: "fst ?E = Inr (Completed ''fb'' [?eF, ?eB])"
    by (simp add: fixture_defs run_defs)
  then have t: "?E = (Inr (Completed ''fb'' [?eF, ?eB]), fst (snd ?E), snd (snd ?E))"
    by (metis prod.collapse)
  have g: "snd (snd ?E) =
       [ActiveTasks 1, Process ''F'' (step_task taskX stepF),
        Process ''B'' (step_task taskX stepB), ActiveTasks 0]"
    by (simp add: fixture_defs run_defs)
  have n: "\<not> truthy (js_get ?rF ''data'')" "step_name stepF = ''f''" "agentName stepF = ''F''"
    by (simp_all add: js_get_def stepF_def stepOf_def)
  note inst = soft_failure_continues [where proc = scripted and pre = "[]" and post = "[stepB]",
      OF h1 h2 h3 h4 h5 h6 h7 h8]
  from inst n have a: "\<exists>orch. loop_state scripted wfFB ([] @ [stepF]) taskX [] ?start =
               Some (taskX, [?eF], orch, [Process ''F'' (step_task taskX stepF)])"
    by simp
  from inst t have b: "length [?eF, ?eB] = length (steps wfFB)"
    by blast
  from h1 h2 h3 h4 h5 h6 h7 h8 a f b g show ?thesis by blast
qed

text \<open>Of three steps, the first fails without \<^verbatim>\<open>escalateOnFailure\<close> and the second
  fails with it: the call returns the escalation object, with two entries.\<close>

theorem soft_failure_counterexample:
  "\<not> escalateOnFailure stepF \<and> length (steps wfFGB) = 3
   \<and> fst (executeWorkflow scripted ''fgb'' taskX orch0) =
       Inr (EscalationHandled
              [(''success'', JBool True), (''data'', JObj [(''handled'', JBool True)])]
              [\<lparr> entry_step = ''f'', entry_agent = ''F'',
                  entry_result = [(''success'', JBool False), (''error'', JStr ''bad input'')] \<rparr>,
               \<lparr> entry_step = ''g'', entry_agent = ''G'',
                  entry_result = [(''success'', JBool False)] \<rparr>])"
  by (simp add: fixture_defs run_defs)

text \<open>
  C5. In an admitted execution, when a step's result does not end the workflow and the
  next step's agent is registered, the next effect after the step's own is the call of
  that agent with the next step's task, whose \<^verbatim>\<open>data\<close> is the result's \<^verbatim>\<open>data\<close>
  whenever that is truthy (as every object is), whatever the payload was before, and is
  the payload of before when the result has none; the task's \<^verbatim>\<open>type\<close> stays. The
  example of two steps, the first returning \<^verbatim>\<open>{success: true, data: {v: 2}}\<close> on the
  payload \<^verbatim>\<open>{v: 1}\<close>, is the instance proved after it.
\<close>

theorem result_data_replaces_payload:
  assumes wfreg: "map_of (workflows orig) wn = Some w"
    and cap: "activeTasksCount orig < maxConcurrentTasks orig"
    and stp: "steps w = pre @ s # s2 # post"
    and reach: "loop_state proc w pre t []
                  (orig\<lparr> activeTasksCount := activeTasksCount orig + 1 \<rparr>) =
                Some (cur, res, orch, ev0)"
    and ag: "map_of (agents orch) (agentName s) = Some a"
    and ex: "executeWithRetry proc a (step_task cur s) (Some (step_retries s)) = (Inr r, a', ev1)"
    and go: "\<not> (\<not> truthy (js_get r ''success'') \<and> escalateOnFailure s)"
    and ag2: "map_of (AList.update (agentName s) a' (agents orch)) (agentName s2) = Some b"
  shows "\<exists>task2 ev2.
           snd (snd (executeWorkflow proc wn t orig)) =
             ActiveTasks (activeTasksCount orig + 1) # ev0 @ ev1 @ Process (name b) task2 # ev2
         \<and> task2 =
             step_task (if truthy (js_get r ''data'')
                        then js_set ''data'' (js_get r ''data'') cur else cur) s2
         \<and> js_get task2 ''data'' =
             (if truthy (js_get r ''data'') then js_get r ''data'' else js_get cur ''data'')
         \<and> js_get task2 ''type'' = js_get cur ''type''"
proof -
  define c where
    "c = (if truthy (js_get r ''data'') then js_set ''data'' (js_get r ''data'') cur else cur)"
  define o1 where "o1 = orch\<lparr> agents := AList.update (agentName s) a' (agents orch) \<rparr>"
  define rs where
    "rs = res @ [\<lparr> entry_step = step_name s, entry_agent = agentName s, entry_result = r \<rparr>]"
  from ag2 have ag2': "map_of (agents o1) (agentName s2) = Some b" by (simp add: o1_def)
  obtain out o2 ev' where r2: "run_steps proc wn w (s2 # post) c rs o1 = (out, o2, ev')"
    by (cases "run_steps proc wn w (s2 # post) c rs o1") auto
  from run_steps_first_event [OF ag2', of proc wn w post c rs] r2
  obtain ev2 where nxt: "ev' = Process (name b) (step_task c s2) # ev2"
    by auto
  have "loop_body proc w s cur res orch = (Continue c rs, o1, ev1)"
    using loop_body_continues [OF ag ex go, of w res] by (simp add: c_def o1_def rs_def)
  then have "run_steps proc wn w (s # s2 # post) cur res orch = (out, o2, ev1 @ ev')"
    using r2 by (simp add: run_steps_Cons_continue del: run_steps.simps)
  with executeWorkflow_at_step(1) [OF wfreg cap stp reach] nxt
  have "snd (snd (executeWorkflow proc wn t orig)) =
          ActiveTasks (activeTasksCount orig + 1) # ev0 @ ev1 @
          Process (name b) (step_task c s2) # (ev2 @ [ActiveTasks (activeTasksCount orig)])"
    by (simp del: run_steps.simps)
  moreover have "js_get (step_task c s2) ''data'' =
             (if truthy (js_get r ''data'') then js_get r ''data'' else js_get cur ''data'')"
    by (simp add: c_def js_get_step_task js_get_set_same)
  moreover have "js_get (step_task c s2) ''type'' = js_get cur ''type''"
    by (simp add: c_def js_get_step_task js_get_set_other)
  ultimately show ?thesis unfolding c_def by blast
qed

theorem result_data_replaces_payload_witness:
  "map_of (workflows orch0) ''ab'' = Some wfAB
   \<and> activeTasksCount orch0 < maxConcurrentTasks orch0
   \<and> steps wfAB = [] @ stepA # stepB # []
   \<and> js_get taskX ''data'' = JObj [(''v'', JNum 1)]
   \<and> loop_state scripted wfAB [] taskX []
        (orch0\<lparr> activeTasksCount := activeTasksCount orch0 + 1 \<rparr>) =
      Some (taskX, [], orch0\<lparr> activeTasksCount := activeTasksCount orch0 + 1 \<rparr>, [])
   \<and> map_of (agents (orch0\<lparr> activeTasksCount := activeTasksCount orch0 + 1 \<rparr>))
        (agentName stepA) = Some agentA
   \<and> executeWithRetry scripted agentA (step_task taskX stepA) (Some (step_retries stepA)) =
       (Inr [(''success'', JBool True), (''data'', JObj [(''v'', JNum 2)])],
        updateMetrics 5 False (agentA\<lparr> own := [] \<rparr>),
        [Process ''A'' (step_task taskX stepA)])
   \<and> \<not> (\<not> truthy (js_get [(''success'', JBool True), (''data'', JObj [(''v'', JNum 2)])]
                   ''success'') \<and> escalateOnFailure stepA)
   \<and> map_of (AList.update (agentName stepA) (updateMetrics 5 False (agentA\<lparr> own := [] \<rparr>))
               (agents (orch0\<lparr> activeTasksCount := activeTasksCount orch0 + 1 \<rparr>)))
        (agentName stepB) = Some agentB
   \<and> (\<exists>task2 ev2.
         snd (snd (executeWorkflow scripted ''ab'' taskX orch0)) =
           [ActiveTasks 1, Process ''A'' (step_task taskX stepA), Process ''B'' task2] @ ev2
         \<and> js_get task2 ''data'' = JObj [(''v'', JNum 2)]
         \<and> js_get task2 ''type'' = JStr ''x'')
   \<and> snd (snd (executeWorkflow scripted ''ab'' taskX orch0)) =
       [ActiveTasks 1,
        Process ''A''
          [(''type'', JStr ''x''), (''data'', JObj [(''v'', JNum 1)]),
           (''stepName'', JStr ''a''), (''stepConfig'', JObj [])],
        Process ''B''
          [(''type'', JStr ''x''), (''data'', JObj [(''v'', JNum 2)]),
           (''stepName'', JStr ''b''), (''stepConfig'', JObj [])],
        ActiveTasks 0]"
proof -
  let ?start = "orch0\<lparr> activeTasksCount := activeTasksCount orch0 + 1 \<rparr>"
  let ?rA = "[(''success'', JBool True), (''data'', JObj [(''v'', JNum 2)])]"
  let ?a' = "updateMetrics 5 False (agentA\<lparr> own := [] \<rparr>)"
  let ?E = "executeWorkflow scripted ''ab'' taskX orch0"
  have h1: "map_of (workflows orch0) ''ab'' = Some wfAB"
    and h2: "activeTasksCount orch0 < maxConcurrentTasks orch0"
    and h3: "steps wfAB = [] @ stepA # stepB # []"
    and h4: "loop_state scripted wfAB [] taskX [] ?start = Some (taskX, [], ?start, [])"
    and h5: "map_of (agents ?start) (agentName stepA) = Some agentA"
    and h7: "\<not> (\<not> truthy (js_get ?rA ''success'') \<and> escalateOnFailure stepA)"
    and h8: "map_of (AList.update (agentName stepA) ?a' (agents ?start)) (agentName stepB) =
               Some agentB"
    and d0: "js_get taskX ''data'' = JObj [(''v'', JNum 1)]"
    by (simp_all add: orch0_def wfAB_def stepA_def stepB_def stepOf_def js_get_def taskX_def)
  have h6: "executeWithRetry scripted agentA (step_task taskX stepA) (Some (step_retries stepA)) =
       (Inr ?rA, ?a', [Process ''A'' (step_task taskX stepA)])"
    by (simp add: fixture_defs run_defs)
  have n: "truthy (js_get ?rA ''data'')" "js_get ?rA ''data'' = JObj [(''v'', JNum 2)]"
    "js_get taskX ''type'' = JStr ''x''" "name agentB = ''B''" "activeTasksCount orch0 = 0"
    by (simp_all add: js_get_def taskX_def agentB_def new_agent_def orch0_def)
  from result_data_replaces_payload [where proc = scripted and pre = "[]" and post = "[]",
      OF h1 h2 h3 h4 h5 h6 h7 h8] n
  have a: "\<exists>task2 ev2. snd (snd ?E) =
           [ActiveTasks 1, Process ''A'' (step_task taskX stepA), Process ''B'' task2] @ ev2
         \<and> js_get task2 ''data'' = JObj [(''v'', JNum 2)]
         \<and> js_get task2 ''type'' = JStr ''x''"
    by auto
  have b: "snd (snd ?E) =
       [ActiveTasks 1,
        Process ''A''
          [(''type'', JStr ''x''), (''data'', JObj [(''v'', JNum 1)]),
           (''stepName'', JStr ''a''), (''stepConfig'', JObj [])],
        Process ''B''
          [(''type'', JStr ''x''), (''data'', JObj [(''v'', JNum 2)]),
           (''stepName'', JStr ''b''), (''stepConfig'', JObj [])],
        ActiveTasks 0]"
    by (simp add: fixture_defs run_defs)
  from h1 h2 h3 d0 h4 h5 h6 h7 h8 a b show ?thesis by blast
qed

end
